theory Spec2Isabelle
  imports Main "HOL-Library.Word"
begin

section \<open>Flip clock firmware: data model\<close>

text \<open>
  The repository holds three sketches of one firmware: the RTC sketch with the PCF8574
  expander (version 2.0, \<^verbatim>\<open>handleButtons\<close> with an \<^verbatim>\<open>else if\<close> chain), an
  earlier RTC sketch on plain GPIO (\<^verbatim>\<open>handleButtons\<close> with independent \<^verbatim>\<open>if\<close>s), and
  the WiFi/NTP sketch (two copies that differ in comments only).  The dial functions are
  the same text in all of them up to the servo offsets and the homing delays, which are
  the fields of \<open>firmware\<close>.
\<close>

datatype level = LOW | HIGH

datatype dial = Minute | Hour

datatype pin = HOME_MINUTE | STEP_MINUTE | HOME_HOUR | STEP_HOUR

datatype ClockState = NORMAL_MODE | SETTING_MODE

record DateTime =
  year :: int
  month :: int
  day :: int
  hour :: int
  minute :: int
  second :: int

text \<open>
  The trace of effects: every \<^verbatim>\<open>servo.write\<close>, every assignment to a position counter
  (with the value it replaces) and every \<^verbatim>\<open>rtc.adjust\<close>, in program order.
\<close>

datatype event = ServoWrite dial int | Assign dial int int | RtcAdjust DateTime

record buttons =
  BTN_MODE_CANCEL :: level
  BTN_HOUR_INC :: level
  BTN_MINUTE_INC :: level
  BTN_SAVE :: level

record firmware =
  SERVO_MOVE_OFFSET_MINUTE :: int
  SERVO_MOVE_OFFSET_HOUR :: int
  HOME_POLL_DELAY :: nat
  HOME_SETTLE_DELAY :: nat

definition SERVO_STOP_POSITION :: int where
  "SERVO_STOP_POSITION = 90"

definition debounceDelay :: "32 word" where
  "debounceDelay = 250"

definition FlipClock_RTC_PCF8574 :: firmware where
  "FlipClock_RTC_PCF8574 =
     \<lparr>SERVO_MOVE_OFFSET_MINUTE = 15, SERVO_MOVE_OFFSET_HOUR = - 15,
      HOME_POLL_DELAY = 20, HOME_SETTLE_DELAY = 0\<rparr>"

definition FlipClock_RTC_GPIO :: firmware where
  "FlipClock_RTC_GPIO =
     \<lparr>SERVO_MOVE_OFFSET_MINUTE = 5, SERVO_MOVE_OFFSET_HOUR = - 5,
      HOME_POLL_DELAY = 20, HOME_SETTLE_DELAY = 0\<rparr>"

definition FlipClock_WiFi :: firmware where
  "FlipClock_WiFi =
     \<lparr>SERVO_MOVE_OFFSET_MINUTE = 30, SERVO_MOVE_OFFSET_HOUR = - 30,
      HOME_POLL_DELAY = 200, HOME_SETTLE_DELAY = 500\<rparr>"

text \<open>
  The global variables of the sketch, the hardware millisecond counter (\<^verbatim>\<open>unsigned long\<close>,
  32 bits on the ESP8266), the time held by the time source (the RTC chip, or the NTP
  client of the WiFi sketch), the samples each limit switch will deliver to the coming
  \<^verbatim>\<open>digitalRead\<close> calls, and the trace.  The counters are C \<^verbatim>\<open>int\<close>s; they are
  modelled as integers (they never leave \<open>-1..59\<close>, see C3), and \<open>c_rem\<close> is C's \<^verbatim>\<open>%\<close>.
\<close>

record world =
  currentMode :: ClockState
  currentMinuteOnClock :: int
  currentHourOnClock :: int
  settingHour :: int
  settingMinute :: int
  lastButtonPressTime :: "32 word"
  millis :: "32 word"
  timeSource :: DateTime
  switches :: "pin \<Rightarrow> level list"
  events :: "event list"

text \<open>
  A call either returns, or blocks for ever in one of the polling loops: the samples of
  the switch are used up and the awaited level never came.  A blocked call still carries
  the state it reached, with everything it wrote before.
\<close>

datatype outcome = Blocked world | Returned world

fun final :: "outcome \<Rightarrow> world" where
  "final (Blocked w) = w"
| "final (Returned w) = w"

fun andThen :: "outcome \<Rightarrow> (world \<Rightarrow> outcome) \<Rightarrow> outcome" where
  "andThen (Blocked w) f = Blocked w"
| "andThen (Returned w) f = f w"

definition c_rem :: "int \<Rightarrow> int \<Rightarrow> int" where
  "c_rem a b = sgn a * (\<bar>a\<bar> mod \<bar>b\<bar>)"

section \<open>Primitive effects\<close>

text \<open>
  Time is what \<^verbatim>\<open>delay\<close> makes of it: \<^verbatim>\<open>millis()\<close> advances by the milliseconds the
  sketch waits, modulo \<open>2 ^ 32\<close>; the time the instructions and the bus take is not
  counted.
\<close>

definition delay :: "nat \<Rightarrow> world \<Rightarrow> world" where
  "delay ms w = w\<lparr>millis := millis w + of_nat ms\<rparr>"

definition servo_write :: "dial \<Rightarrow> int \<Rightarrow> world \<Rightarrow> world" where
  "servo_write d v w = w\<lparr>events := events w @ [ServoWrite d v]\<rparr>"

definition rtc_adjust :: "DateTime \<Rightarrow> world \<Rightarrow> world" where
  "rtc_adjust t w = w\<lparr>timeSource := t, events := events w @ [RtcAdjust t]\<rparr>"

fun assign :: "dial \<Rightarrow> int \<Rightarrow> world \<Rightarrow> world" where
  "assign Minute v w =
     w\<lparr>currentMinuteOnClock := v,
       events := events w @ [Assign Minute (currentMinuteOnClock w) v]\<rparr>"
| "assign Hour v w =
     w\<lparr>currentHourOnClock := v,
       events := events w @ [Assign Hour (currentHourOnClock w) v]\<rparr>"

text \<open>
  \<^verbatim>\<open>while (digitalRead(p) == l) { body }\<close>: each test takes the next sample of the pin;
  the loop ends at the first sample that differs from \<open>l\<close>.
\<close>

fun poll :: "pin \<Rightarrow> level \<Rightarrow> (world \<Rightarrow> world) \<Rightarrow> level list \<Rightarrow> world \<Rightarrow> outcome" where
  "poll p l body [] w = Blocked (w\<lparr>switches := (switches w)(p := [])\<rparr>)"
| "poll p l body (x # xs) w =
     (if x = l then poll p l body xs (body w)
      else Returned (w\<lparr>switches := (switches w)(p := xs)\<rparr>))"

definition while_read :: "pin \<Rightarrow> level \<Rightarrow> (world \<Rightarrow> world) \<Rightarrow> world \<Rightarrow> outcome" where
  "while_read p l body w = poll p l body (switches w p) w"

section \<open>Low-level movement functions\<close>

definition goHomeMinute :: "firmware \<Rightarrow> world \<Rightarrow> outcome" where
  "goHomeMinute fw w =
     andThen (while_read HOME_MINUTE HIGH
        (\<lambda>w. delay (HOME_POLL_DELAY fw)
           (servo_write Minute (SERVO_STOP_POSITION + SERVO_MOVE_OFFSET_MINUTE fw) w)) w)
       (\<lambda>w. Returned (delay (HOME_SETTLE_DELAY fw)
           (assign Minute 0 (servo_write Minute SERVO_STOP_POSITION w))))"

definition goHomeHour :: "firmware \<Rightarrow> world \<Rightarrow> outcome" where
  "goHomeHour fw w =
     andThen (while_read HOME_HOUR HIGH
        (\<lambda>w. delay (HOME_POLL_DELAY fw)
           (servo_write Hour (SERVO_STOP_POSITION + SERVO_MOVE_OFFSET_HOUR fw) w)) w)
       (\<lambda>w. Returned (delay (HOME_SETTLE_DELAY fw)
           (assign Hour 0 (servo_write Hour SERVO_STOP_POSITION w))))"

definition moveMinuteStep :: "firmware \<Rightarrow> world \<Rightarrow> outcome" where
  "moveMinuteStep fw w =
     andThen (while_read STEP_MINUTE HIGH (delay 10)
        (servo_write Minute (SERVO_STOP_POSITION + SERVO_MOVE_OFFSET_MINUTE fw) w))
       (\<lambda>w. andThen (while_read STEP_MINUTE LOW (delay 10) w)
       (\<lambda>w. Returned (assign Minute (c_rem (currentMinuteOnClock w + 1) 60)
           (servo_write Minute SERVO_STOP_POSITION w))))"

definition performHourSingleStep :: "firmware \<Rightarrow> world \<Rightarrow> outcome" where
  "performHourSingleStep fw w =
     andThen (while_read STEP_HOUR HIGH (delay 10)
        (servo_write Hour (SERVO_STOP_POSITION + SERVO_MOVE_OFFSET_HOUR fw) w))
       (\<lambda>w. andThen (while_read STEP_HOUR LOW (delay 10) w)
       (\<lambda>w. Returned (servo_write Hour SERVO_STOP_POSITION w)))"

definition moveHourToNext :: "firmware \<Rightarrow> world \<Rightarrow> outcome" where
  "moveHourToNext fw w =
     andThen (performHourSingleStep fw w)
       (\<lambda>w. andThen (performHourSingleStep fw (delay 100 w))
       (\<lambda>w. Returned (assign Hour (c_rem (currentHourOnClock w + 1) 24) w)))"

section \<open>Core clock functions\<close>

lemma poll_consumes:
  assumes "poll p l body xs w = Returned w'" and "\<And>v. switches (body v) = switches v"
  shows "length (switches w' p) < length xs"
  using assms
proof (induction xs arbitrary: w)
  case Nil
  then show ?case by simp
next
  case (Cons x xs)
  show ?case
  proof (cases "x = l")
    case True
    with Cons.prems have "poll p l body xs (body w) = Returned w'" by simp
    from Cons.IH [OF this Cons.prems(2)] show ?thesis by simp
  next
    case False
    with Cons.prems show ?thesis by auto
  qed
qed

lemma moveMinuteStep_consumes:
  assumes "moveMinuteStep fw w = Returned w'"
  shows "length (switches w' STEP_MINUTE) < length (switches w STEP_MINUTE)"
proof -
  let ?w0 = "servo_write Minute (SERVO_STOP_POSITION + SERVO_MOVE_OFFSET_MINUTE fw) w"
  from assms obtain w1 w2 where
    a: "while_read STEP_MINUTE HIGH (delay 10) ?w0 = Returned w1" and
    b: "while_read STEP_MINUTE LOW (delay 10) w1 = Returned w2" and
    c: "w' = assign Minute (c_rem (currentMinuteOnClock w2 + 1) 60)
              (servo_write Minute SERVO_STOP_POSITION w2)"
    unfolding moveMinuteStep_def
    by (cases "while_read STEP_MINUTE HIGH (delay 10) ?w0";
        cases "while_read STEP_MINUTE LOW (delay 10)
                 (final (while_read STEP_MINUTE HIGH (delay 10) ?w0))") auto
  have "length (switches w1 STEP_MINUTE) < length (switches ?w0 STEP_MINUTE)"
    using a unfolding while_read_def by (rule poll_consumes) (simp add: delay_def)
  moreover have "length (switches w2 STEP_MINUTE) < length (switches w1 STEP_MINUTE)"
    using b unfolding while_read_def by (rule poll_consumes) (simp add: delay_def)
  ultimately show ?thesis using c by (simp add: servo_write_def)
qed

lemma performHourSingleStep_consumes:
  assumes "performHourSingleStep fw w = Returned w'"
  shows "length (switches w' STEP_HOUR) < length (switches w STEP_HOUR)"
proof -
  let ?w0 = "servo_write Hour (SERVO_STOP_POSITION + SERVO_MOVE_OFFSET_HOUR fw) w"
  from assms obtain w1 w2 where
    a: "while_read STEP_HOUR HIGH (delay 10) ?w0 = Returned w1" and
    b: "while_read STEP_HOUR LOW (delay 10) w1 = Returned w2" and
    c: "w' = servo_write Hour SERVO_STOP_POSITION w2"
    unfolding performHourSingleStep_def
    by (cases "while_read STEP_HOUR HIGH (delay 10) ?w0";
        cases "while_read STEP_HOUR LOW (delay 10)
                 (final (while_read STEP_HOUR HIGH (delay 10) ?w0))") auto
  have "length (switches w1 STEP_HOUR) < length (switches ?w0 STEP_HOUR)"
    using a unfolding while_read_def by (rule poll_consumes) (simp add: delay_def)
  moreover have "length (switches w2 STEP_HOUR) < length (switches w1 STEP_HOUR)"
    using b unfolding while_read_def by (rule poll_consumes) (simp add: delay_def)
  ultimately show ?thesis using c by (simp add: servo_write_def)
qed

lemma moveHourToNext_consumes:
  assumes "moveHourToNext fw w = Returned w'"
  shows "length (switches w' STEP_HOUR) < length (switches w STEP_HOUR)"
proof -
  from assms obtain w1 w2 where
    a: "performHourSingleStep fw w = Returned w1" and
    b: "performHourSingleStep fw (delay 100 w1) = Returned w2" and
    c: "w' = assign Hour (c_rem (currentHourOnClock w2 + 1) 24) w2"
    unfolding moveHourToNext_def
    by (cases "performHourSingleStep fw w";
        cases "performHourSingleStep fw (delay 100 (final (performHourSingleStep fw w)))") auto
  from performHourSingleStep_consumes [OF a] performHourSingleStep_consumes [OF b] c
  show ?thesis by (simp add: delay_def)
qed

text \<open>
  The two loops of \<^verbatim>\<open>syncClockToRTC\<close>.  Every pass of a loop takes samples from the step
  switch, so on the samples of a world the recursion ends: with \<open>Returned\<close> when the
  counter meets the reading, with \<open>Blocked\<close> when the samples run out first.
\<close>

function sync_hour :: "firmware \<Rightarrow> int \<Rightarrow> world \<Rightarrow> outcome" where
  "sync_hour fw actualHour w =
     (if currentHourOnClock w \<noteq> actualHour then
        (case moveHourToNext fw w of
           Blocked w' \<Rightarrow> Blocked w'
         | Returned w' \<Rightarrow> sync_hour fw actualHour w')
      else Returned w)"
  by pat_completeness auto
termination
  by (relation "measure (\<lambda>(fw, a, w). length (switches w STEP_HOUR))")
     (auto dest: moveHourToNext_consumes)

function sync_minute :: "firmware \<Rightarrow> int \<Rightarrow> world \<Rightarrow> outcome" where
  "sync_minute fw actualMinute w =
     (if currentMinuteOnClock w \<noteq> actualMinute then
        (case moveMinuteStep fw w of
           Blocked w' \<Rightarrow> Blocked w'
         | Returned w' \<Rightarrow> sync_minute fw actualMinute w')
      else Returned w)"
  by pat_completeness auto
termination
  by (relation "measure (\<lambda>(fw, a, w). length (switches w STEP_MINUTE))")
     (auto dest: moveMinuteStep_consumes)

declare sync_hour.simps [simp del] sync_minute.simps [simp del]

definition syncClockToRTC :: "firmware \<Rightarrow> world \<Rightarrow> outcome" where
  "syncClockToRTC fw w =
     (let now = timeSource w; actualMinute = minute now; actualHour = hour now
      in andThen (sync_hour fw actualHour w) (sync_minute fw actualMinute))"

text \<open>\<open>n\<close> calls of one function in a row, stopping where one blocks.\<close>

fun iterate :: "nat \<Rightarrow> (world \<Rightarrow> outcome) \<Rightarrow> world \<Rightarrow> outcome" where
  "iterate 0 f w = Returned w"
| "iterate (Suc n) f w = andThen (f w) (iterate n f)"

section \<open>Button handling\<close>

text \<open>
  Each button is read at most once in a call of \<^verbatim>\<open>handleButtons\<close>; \<open>b\<close> gives the level
  each read returns.  \<^verbatim>\<open>millis() - lastButtonPressTime < debounceDelay\<close> is an unsigned
  32-bit comparison.  Version 2.0 (PCF8574) chains the four tests with \<^verbatim>\<open>else if\<close>.
\<close>

definition handleButtons_PCF8574 :: "buttons \<Rightarrow> world \<Rightarrow> outcome" where
  "handleButtons_PCF8574 b w =
     (if millis w - lastButtonPressTime w < debounceDelay then Returned w
      else if currentMode w = NORMAL_MODE then
        (if BTN_MODE_CANCEL b = LOW then
           Returned (w\<lparr>lastButtonPressTime := millis w, currentMode := SETTING_MODE,
                      settingHour := hour (timeSource w),
                      settingMinute := minute (timeSource w)\<rparr>)
         else Returned w)
      else if BTN_HOUR_INC b = LOW then
        moveHourToNext FlipClock_RTC_PCF8574
          (w\<lparr>lastButtonPressTime := millis w,
             settingHour := c_rem (settingHour w + 1) 24\<rparr>)
      else if BTN_MINUTE_INC b = LOW then
        moveMinuteStep FlipClock_RTC_PCF8574
          (w\<lparr>lastButtonPressTime := millis w,
             settingMinute := c_rem (settingMinute w + 1) 60\<rparr>)
      else if BTN_SAVE b = LOW then
        (let now = timeSource w in
         Returned ((rtc_adjust
             \<lparr>year = year now, month = month now, day = day now,
              hour = settingHour w, minute = settingMinute w, second = 0\<rparr>
             (w\<lparr>lastButtonPressTime := millis w\<rparr>))\<lparr>currentMode := NORMAL_MODE\<rparr>))
      else if BTN_MODE_CANCEL b = LOW then
        syncClockToRTC FlipClock_RTC_PCF8574
          (w\<lparr>lastButtonPressTime := millis w, currentMode := NORMAL_MODE\<rparr>)
      else Returned w)"

text \<open>The earlier RTC sketch tests the four buttons with four independent \<^verbatim>\<open>if\<close>s.\<close>

definition handleButtons_GPIO :: "buttons \<Rightarrow> world \<Rightarrow> outcome" where
  "handleButtons_GPIO b w =
     (if millis w - lastButtonPressTime w < debounceDelay then Returned w
      else if currentMode w = NORMAL_MODE then
        (if BTN_MODE_CANCEL b = LOW then
           Returned (w\<lparr>lastButtonPressTime := millis w, currentMode := SETTING_MODE,
                      settingHour := hour (timeSource w),
                      settingMinute := minute (timeSource w)\<rparr>)
         else Returned w)
      else
        andThen
          (if BTN_HOUR_INC b = LOW then
             moveHourToNext FlipClock_RTC_GPIO
               (w\<lparr>lastButtonPressTime := millis w,
                  settingHour := c_rem (settingHour w + 1) 24\<rparr>)
           else Returned w)
        (\<lambda>w. andThen
          (if BTN_MINUTE_INC b = LOW then
             moveMinuteStep FlipClock_RTC_GPIO
               (w\<lparr>lastButtonPressTime := millis w,
                  settingMinute := c_rem (settingMinute w + 1) 60\<rparr>)
           else Returned w)
        (\<lambda>w. andThen
          (if BTN_SAVE b = LOW then
             Returned ((rtc_adjust
                 \<lparr>year = 2025, month = 6, day = 23,
                  hour = settingHour w, minute = settingMinute w, second = 0\<rparr>
                 (w\<lparr>lastButtonPressTime := millis w\<rparr>))\<lparr>currentMode := NORMAL_MODE\<rparr>)
           else Returned w)
        (\<lambda>w.
          if BTN_MODE_CANCEL b = LOW then
            syncClockToRTC FlipClock_RTC_GPIO
              (w\<lparr>lastButtonPressTime := millis w, currentMode := NORMAL_MODE\<rparr>)
          else Returned w))))"

section \<open>Main loops and start-up\<close>

definition loop_RTC_PCF8574 :: "buttons \<Rightarrow> world \<Rightarrow> outcome" where
  "loop_RTC_PCF8574 b w =
     andThen (handleButtons_PCF8574 b w)
       (\<lambda>w. if currentMode w = NORMAL_MODE then
               andThen (syncClockToRTC FlipClock_RTC_PCF8574 w)
                 (\<lambda>w. Returned (delay 1000 w))
             else Returned (delay 50 w))"

definition loop_RTC_GPIO :: "buttons \<Rightarrow> world \<Rightarrow> outcome" where
  "loop_RTC_GPIO b w =
     andThen (handleButtons_GPIO b w)
       (\<lambda>w. if currentMode w = NORMAL_MODE then
               andThen (syncClockToRTC FlipClock_RTC_GPIO w)
                 (\<lambda>w. Returned (delay 1000 w))
             else Returned (delay 50 w))"

text \<open>
  The WiFi sketch has no \<^verbatim>\<open>syncClockToRTC\<close>: each pass of \<^verbatim>\<open>loop\<close> reads the NTP time
  and moves each dial that differs from it by one advance.
\<close>

definition loop_WiFi :: "world \<Rightarrow> outcome" where
  "loop_WiFi w =
     (let actualMinute = minute (timeSource w); actualHour = hour (timeSource w)
      in andThen
           (if currentMinuteOnClock w \<noteq> actualMinute then moveMinuteStep FlipClock_WiFi w
            else Returned w)
         (\<lambda>w. andThen
           (if currentHourOnClock w \<noteq> actualHour then moveHourToNext FlipClock_WiFi w
            else Returned w)
         (\<lambda>w. Returned (delay 1000 w))))"

text \<open>
  The state at power-on: the initialisers of the globals (\<^verbatim>\<open>settingHour\<close> and
  \<^verbatim>\<open>settingMinute\<close> have none and are zero), the millisecond counter at zero, an empty
  trace.
\<close>

definition power_on :: "(pin \<Rightarrow> level list) \<Rightarrow> DateTime \<Rightarrow> world" where
  "power_on s t =
     \<lparr>currentMode = NORMAL_MODE, currentMinuteOnClock = - 1, currentHourOnClock = - 1,
      settingHour = 0, settingMinute = 0, lastButtonPressTime = 0, millis = 0,
      timeSource = t, switches = s, events = []\<rparr>"

text \<open>
  \<^verbatim>\<open>setup\<close>.  \<open>found\<close> is the result of \<^verbatim>\<open>rtc.begin()\<close> (the sketch halts in
  \<^verbatim>\<open>while (1)\<close> without an RTC), \<open>lost\<close> that of \<^verbatim>\<open>rtc.lostPower()\<close>, \<open>built\<close> the
  compile time.  In the WiFi sketch \<open>connected\<close> says whether the WiFi association
  ever succeeds and \<open>updated\<close> whether the first NTP update does; the sketch waits for
  each in a loop.
\<close>

definition setup_RTC_PCF8574 :: "bool \<Rightarrow> bool \<Rightarrow> DateTime \<Rightarrow> world \<Rightarrow> outcome" where
  "setup_RTC_PCF8574 found lost built w =
     (if \<not> found then Blocked w
      else
        andThen (goHomeHour FlipClock_RTC_PCF8574
           (servo_write Hour SERVO_STOP_POSITION
             (servo_write Minute SERVO_STOP_POSITION
               (if lost then rtc_adjust built w else w))))
        (\<lambda>w. andThen (goHomeMinute FlipClock_RTC_PCF8574 w)
        (syncClockToRTC FlipClock_RTC_PCF8574)))"

definition setup_RTC_GPIO :: "bool \<Rightarrow> bool \<Rightarrow> DateTime \<Rightarrow> world \<Rightarrow> outcome" where
  "setup_RTC_GPIO found lost built w =
     (let w = servo_write Hour SERVO_STOP_POSITION (servo_write Minute SERVO_STOP_POSITION w)
      in if \<not> found then Blocked w
         else
           andThen (goHomeMinute FlipClock_RTC_GPIO (if lost then rtc_adjust built w else w))
           (\<lambda>w. andThen (goHomeHour FlipClock_RTC_GPIO w)
           (syncClockToRTC FlipClock_RTC_GPIO)))"

definition setup_WiFi :: "bool \<Rightarrow> bool \<Rightarrow> world \<Rightarrow> outcome" where
  "setup_WiFi connected updated w =
     (let w = servo_write Hour SERVO_STOP_POSITION (servo_write Minute SERVO_STOP_POSITION w)
      in if \<not> connected then Blocked w
         else
           andThen (goHomeMinute FlipClock_WiFi w)
           (\<lambda>w. andThen (goHomeHour FlipClock_WiFi w)
           (\<lambda>w. if \<not> updated then Blocked w else Returned w)))"

text \<open>
  The runs of a sketch: \<^verbatim>\<open>setup\<close> from power-on, then \<^verbatim>\<open>loop\<close> again and again for as
  long as it returns.  Between two passes the surroundings may have changed in any way:
  new switch samples, another time in the time source, another value of \<^verbatim>\<open>millis()\<close>.
\<close>

inductive run :: "(world \<Rightarrow> outcome) \<Rightarrow> (buttons \<Rightarrow> world \<Rightarrow> outcome) \<Rightarrow> outcome \<Rightarrow> bool"
  for su :: "world \<Rightarrow> outcome" and lp :: "buttons \<Rightarrow> world \<Rightarrow> outcome" where
  boot: "run su lp (su (power_on s t))"
| pass: "run su lp (Returned w) \<Longrightarrow>
         run su lp (lp b (w\<lparr>switches := s, timeSource := t, millis := m\<rparr>))"

text \<open>The outcomes the three sketches can reach.\<close>

definition reachable :: "outcome \<Rightarrow> bool" where
  "reachable r =
     ((\<exists>found lost built. run (setup_RTC_PCF8574 found lost built) loop_RTC_PCF8574 r) \<or>
      (\<exists>found lost built. run (setup_RTC_GPIO found lost built) loop_RTC_GPIO r) \<or>
      (\<exists>connected updated. run (setup_WiFi connected updated) (\<lambda>b. loop_WiFi) r))"

text \<open>
  One press-release cycle as a step switch delivers it to the two polling loops of a
  single step: \<open>i\<close> samples HIGH while the cam approaches, \<open>j + 1\<close> samples LOW while the
  switch is pressed, and the sample HIGH that ends the second loop.
\<close>

fun cycle :: "nat \<times> nat \<Rightarrow> level list" where
  "cycle (i, j) = replicate i HIGH @ replicate (Suc j) LOW @ [HIGH]"

definition cycles :: "(nat \<times> nat) list \<Rightarrow> level list" where
  "cycles ps = concat (map cycle ps)"

text \<open>
  The number of advances from counter value \<open>c\<close> to the reading \<open>a\<close> on a dial of \<open>m\<close>
  positions.
\<close>

definition advances :: "int \<Rightarrow> int \<Rightarrow> int \<Rightarrow> nat" where
  "advances m c a = (if c \<le> a then nat (a - c) else nat (a - c + m))"

text \<open>The operations of the sketches, for statements about every one of them.\<close>

datatype operation =
  GoHomeMinute | GoHomeHour | MoveMinuteStep | PerformHourSingleStep | MoveHourToNext
| SyncClockToRTC | HandleButtons_PCF8574 buttons | HandleButtons_GPIO buttons
| Loop_RTC_PCF8574 buttons | Loop_RTC_GPIO buttons | Loop_WiFi

fun perform :: "firmware \<Rightarrow> operation \<Rightarrow> world \<Rightarrow> outcome" where
  "perform fw GoHomeMinute = goHomeMinute fw"
| "perform fw GoHomeHour = goHomeHour fw"
| "perform fw MoveMinuteStep = moveMinuteStep fw"
| "perform fw PerformHourSingleStep = performHourSingleStep fw"
| "perform fw MoveHourToNext = moveHourToNext fw"
| "perform fw SyncClockToRTC = syncClockToRTC fw"
| "perform fw (HandleButtons_PCF8574 b) = handleButtons_PCF8574 b"
| "perform fw (HandleButtons_GPIO b) = handleButtons_GPIO b"
| "perform fw (Loop_RTC_PCF8574 b) = loop_RTC_PCF8574 b"
| "perform fw (Loop_RTC_GPIO b) = loop_RTC_GPIO b"
| "perform fw Loop_WiFi = loop_WiFi"

text \<open>
  Worlds for the examples: \<open>presses n\<close> is \<open>n\<close> press-release cycles of a step switch
  that answers at once, \<open>bench m h t s\<close> the state after power-on with the counters at
  \<open>m\<close> and \<open>h\<close>, the time source at \<open>t\<close> and the switch samples \<open>s\<close>.
\<close>

definition presses :: "nat \<Rightarrow> level list" where
  "presses n = cycles (replicate n (0, 0))"

definition clock_time :: "int \<Rightarrow> int \<Rightarrow> DateTime" where
  "clock_time h m = \<lparr>year = 2025, month = 6, day = 23, hour = h, minute = m, second = 30\<rparr>"

definition bench :: "int \<Rightarrow> int \<Rightarrow> DateTime \<Rightarrow> (pin \<Rightarrow> level list) \<Rightarrow> world" where
  "bench m h t s = (power_on s t)\<lparr>currentMinuteOnClock := m, currentHourOnClock := h\<rparr>"

definition no_buttons :: buttons where
  "no_buttons =
     \<lparr>BTN_MODE_CANCEL = HIGH, BTN_HOUR_INC = HIGH, BTN_MINUTE_INC = HIGH, BTN_SAVE = HIGH\<rparr>"

text \<open>
  A world in setting mode, a second after power-on: the dials at 10:05, the time source at
  10:05 as well, the scratch values at 11:07, two press-release cycles on each switch.
\<close>

definition setting_example :: world where
  "setting_example =
     (bench 5 10 (clock_time 10 5) (\<lambda>p. presses 2))
       \<lparr>millis := 1000, currentMode := SETTING_MODE, settingHour := 11, settingMinute := 7\<rparr>"

definition morning :: "pin \<Rightarrow> level list" where
  "morning = (\<lambda>p. [LOW])(STEP_MINUTE := presses 2)"

section \<open>Predicates for stating the properties\<close>

text \<open>
  \<open>holds B R r\<close>: the outcome \<open>r\<close> satisfies \<open>B\<close> if the call blocked and \<open>R\<close> if it
  returned.
\<close>

fun holds :: "(world \<Rightarrow> bool) \<Rightarrow> (world \<Rightarrow> bool) \<Rightarrow> outcome \<Rightarrow> bool" where
  "holds B R (Blocked w) = B w"
| "holds B R (Returned w) = R w"

text \<open>
  The documented ranges of the two position counters, and the ranges once a dial has
  been homed.
\<close>

definition in_range :: "world \<Rightarrow> bool" where
  "in_range w =
     (- 1 \<le> currentMinuteOnClock w \<and> currentMinuteOnClock w \<le> 59 \<and>
      - 1 \<le> currentHourOnClock w \<and> currentHourOnClock w \<le> 23)"

fun known :: "dial \<Rightarrow> world \<Rightarrow> bool" where
  "known Minute w = (0 \<le> currentMinuteOnClock w \<and> currentMinuteOnClock w \<le> 59)"
| "known Hour w = (0 \<le> currentHourOnClock w \<and> currentHourOnClock w \<le> 23)"

definition homed :: "world \<Rightarrow> bool" where
  "homed w = (known Minute w \<and> known Hour w)"

text \<open>
  What the sketch \<open>fw\<close> may write: to a servo the stop pulse or the stop pulse plus the
  offset of that dial; to a counter the successor of its value modulo the range.
\<close>

fun legal :: "firmware \<Rightarrow> event \<Rightarrow> bool" where
  "legal fw (ServoWrite Minute v) =
     (v = SERVO_STOP_POSITION \<or> v = SERVO_STOP_POSITION + SERVO_MOVE_OFFSET_MINUTE fw)"
| "legal fw (ServoWrite Hour v) =
     (v = SERVO_STOP_POSITION \<or> v = SERVO_STOP_POSITION + SERVO_MOVE_OFFSET_HOUR fw)"
| "legal fw (Assign Minute old new) = (new = c_rem (old + 1) 60)"
| "legal fw (Assign Hour old new) = (new = c_rem (old + 1) 24)"
| "legal fw (RtcAdjust t) = True"

text \<open>
  Forward is a value above the stop pulse for the minute servo and below it for the hour
  servo (the offsets are positive and negative in all three sketches).
\<close>

fun forward :: "event \<Rightarrow> bool" where
  "forward (ServoWrite Minute v) = (SERVO_STOP_POSITION \<le> v)"
| "forward (ServoWrite Hour v) = (v \<le> SERVO_STOP_POSITION)"
| "forward (Assign d old new) = True"
| "forward (RtcAdjust t) = True"

definition lawful :: "firmware \<Rightarrow> world \<Rightarrow> bool" where
  "lawful fw w = list_all (legal fw) (events w)"

text \<open>The writes to the time source in a trace.\<close>

fun adjusts :: "event list \<Rightarrow> DateTime list" where
  "adjusts [] = []"
| "adjusts (RtcAdjust t # es) = t # adjusts es"
| "adjusts (e # es) = adjusts es"

text \<open>
  \<open>untouched w v\<close>: \<open>v\<close> agrees with \<open>w\<close> on all that the dial functions never write:
  the time source and the writes to it, the mode, the scratch values, the press time.
\<close>

definition untouched :: "world \<Rightarrow> world \<Rightarrow> bool" where
  "untouched w v =
     (timeSource v = timeSource w \<and> adjusts (events v) = adjusts (events w) \<and>
      currentMode v = currentMode w \<and> settingHour v = settingHour w \<and>
      settingMinute v = settingMinute w \<and> lastButtonPressTime v = lastButtonPressTime w)"


text \<open>
  \<open>quiet fw P\<close>: the property \<open>P\<close> of the state is kept by the passing of time, by the
  taking of switch samples and by the servo commands of the sketch \<open>fw\<close>; \<open>steady fw P\<close>:
  it is kept by an advance of either counter as well.
\<close>

definition quiet :: "firmware \<Rightarrow> (world \<Rightarrow> bool) \<Rightarrow> bool" where
  "quiet fw P =
     (\<forall>w. P w \<longrightarrow>
        (\<forall>n. P (delay n w)) \<and> (\<forall>s. P (w\<lparr>switches := s\<rparr>)) \<and>
        P (servo_write Minute SERVO_STOP_POSITION w) \<and>
        P (servo_write Minute (SERVO_STOP_POSITION + SERVO_MOVE_OFFSET_MINUTE fw) w) \<and>
        P (servo_write Hour SERVO_STOP_POSITION w) \<and>
        P (servo_write Hour (SERVO_STOP_POSITION + SERVO_MOVE_OFFSET_HOUR fw) w))"

definition steady :: "firmware \<Rightarrow> (world \<Rightarrow> bool) \<Rightarrow> bool" where
  "steady fw P =
     (quiet fw P \<and>
      (\<forall>w. P w \<longrightarrow>
         P (assign Minute (c_rem (currentMinuteOnClock w + 1) 60) w) \<and>
         P (assign Hour (c_rem (currentHourOnClock w + 1) 24) w)))"

text \<open>
  \<open>settled fw P\<close>: \<open>P\<close> is kept by the bookkeeping of the button handler as well:
  the press time, the mode and the two scratch values.
\<close>

definition settled :: "firmware \<Rightarrow> (world \<Rightarrow> bool) \<Rightarrow> bool" where
  "settled fw P =
     (steady fw P \<and>
      (\<forall>w. P w \<longrightarrow>
         (\<forall>t. P (w\<lparr>lastButtonPressTime := t\<rparr>)) \<and> (\<forall>m. P (w\<lparr>currentMode := m\<rparr>)) \<and>
         (\<forall>x. P (w\<lparr>settingHour := x\<rparr>)) \<and> (\<forall>x. P (w\<lparr>settingMinute := x\<rparr>))))"

section \<open>Properties kept by the dial functions\<close>

lemma holds_andThen:
  assumes "holds B R r" and "\<And>v. R v \<Longrightarrow> holds B Q (f v)"
  shows "holds B Q (andThen r f)"
  using assms by (cases r) auto

lemma holds_weaken:
  assumes "holds B R r" and "\<And>v. B v \<Longrightarrow> B' v" and "\<And>v. R v \<Longrightarrow> R' v"
  shows "holds B' R' r"
  using assms by (cases r) auto

lemma holds_final: "holds P P r = P (final r)"
  by (cases r) auto

lemma holds_poll:
  assumes "P w" and "\<And>v. P v \<Longrightarrow> P (body v)" and "\<And>v s. P v \<Longrightarrow> P (v\<lparr>switches := s\<rparr>)"
  shows "holds P P (poll p l body xs w)"
  using assms by (induction xs arbitrary: w) auto

lemma holds_while_read:
  assumes "P w" and "\<And>v. P v \<Longrightarrow> P (body v)" and "\<And>v s. P v \<Longrightarrow> P (v\<lparr>switches := s\<rparr>)"
  shows "holds P P (while_read p l body w)"
  unfolding while_read_def using assms by (rule holds_poll)

lemma quietD:
  assumes "quiet fw P" and "P w"
  shows "P (delay n w)" and "P (w\<lparr>switches := s\<rparr>)"
    and "P (servo_write Minute SERVO_STOP_POSITION w)"
    and "P (servo_write Minute (SERVO_STOP_POSITION + SERVO_MOVE_OFFSET_MINUTE fw) w)"
    and "P (servo_write Hour SERVO_STOP_POSITION w)"
    and "P (servo_write Hour (SERVO_STOP_POSITION + SERVO_MOVE_OFFSET_HOUR fw) w)"
  using assms unfolding quiet_def by blast+

lemma steadyD:
  assumes "steady fw P"
  shows "quiet fw P"
    and "P w \<Longrightarrow> P (assign Minute (c_rem (currentMinuteOnClock w + 1) 60) w)"
    and "P w \<Longrightarrow> P (assign Hour (c_rem (currentHourOnClock w + 1) 24) w)"
  using assms unfolding steady_def by blast+

lemma holds_moveMinuteStep:
  assumes q: "quiet fw P" and w: "P w"
    and a: "\<And>v. P v \<Longrightarrow> Q (assign Minute (c_rem (currentMinuteOnClock v + 1) 60) v)"
  shows "holds P Q (moveMinuteStep fw w)"
  unfolding moveMinuteStep_def
proof (rule holds_andThen [where R = P], rule holds_while_read)
  show "P (servo_write Minute (SERVO_STOP_POSITION + SERVO_MOVE_OFFSET_MINUTE fw) w)"
    using q w by (rule quietD)
next
  fix v assume v: "P v"
  show "holds P Q (andThen (while_read STEP_MINUTE LOW (delay 10) v)
          (\<lambda>w. Returned (assign Minute (c_rem (currentMinuteOnClock w + 1) 60)
             (servo_write Minute SERVO_STOP_POSITION w))))"
  proof (rule holds_andThen [where R = P], rule holds_while_read)
    show "P v" by (rule v)
  next
    fix u assume u: "P u"
    have "P (servo_write Minute SERVO_STOP_POSITION u)" using q u by (rule quietD)
    from a [OF this]
    show "holds P Q (Returned (assign Minute (c_rem (currentMinuteOnClock u + 1) 60)
             (servo_write Minute SERVO_STOP_POSITION u)))"
      by (simp add: servo_write_def)
  qed (use q in \<open>auto dest: quietD\<close>)
qed (use q in \<open>auto dest: quietD\<close>)

lemma holds_performHourSingleStep:
  assumes q: "quiet fw P" and w: "P w"
  shows "holds P P (performHourSingleStep fw w)"
  unfolding performHourSingleStep_def
proof (rule holds_andThen [where R = P], rule holds_while_read)
  show "P (servo_write Hour (SERVO_STOP_POSITION + SERVO_MOVE_OFFSET_HOUR fw) w)"
    using q w by (rule quietD)
next
  fix v assume v: "P v"
  show "holds P P (andThen (while_read STEP_HOUR LOW (delay 10) v)
          (\<lambda>w. Returned (servo_write Hour SERVO_STOP_POSITION w)))"
  proof (rule holds_andThen [where R = P], rule holds_while_read)
    show "P v" by (rule v)
  next
    fix u assume u: "P u"
    show "holds P P (Returned (servo_write Hour SERVO_STOP_POSITION u))"
      using quietD(5) [OF q u] by simp
  qed (use q in \<open>auto dest: quietD\<close>)
qed (use q in \<open>auto dest: quietD\<close>)

lemma holds_moveHourToNext:
  assumes q: "quiet fw P" and w: "P w"
    and a: "\<And>v. P v \<Longrightarrow> Q (assign Hour (c_rem (currentHourOnClock v + 1) 24) v)"
  shows "holds P Q (moveHourToNext fw w)"
  unfolding moveHourToNext_def
proof (rule holds_andThen [where R = P])
  show "holds P P (performHourSingleStep fw w)"
    using q w by (rule holds_performHourSingleStep)
next
  fix v assume v: "P v"
  show "holds P Q (andThen (performHourSingleStep fw (delay 100 v))
          (\<lambda>w. Returned (assign Hour (c_rem (currentHourOnClock w + 1) 24) w)))"
  proof (rule holds_andThen [where R = P])
    show "holds P P (performHourSingleStep fw (delay 100 v))"
      using q quietD(1) [OF q v] by (rule holds_performHourSingleStep)
  qed (simp add: a del: assign.simps)
qed

section \<open>Closed forms on the samples of a switch\<close>

lemma c_rem_nonneg: "0 \<le> a \<Longrightarrow> c_rem a b = a mod \<bar>b\<bar>"
  by (cases "a = 0") (simp_all add: c_rem_def)

lemma c_rem_succ_60:
  assumes "- 1 \<le> c" and "c \<le> 59"
  shows "c_rem (c + 1) 60 = (if c = 59 then 0 else c + 1)"
  using assms by (simp add: c_rem_nonneg)

lemma c_rem_succ_24:
  assumes "- 1 \<le> c" and "c \<le> 23"
  shows "c_rem (c + 1) 24 = (if c = 23 then 0 else c + 1)"
  using assms by (simp add: c_rem_nonneg)

lemma delay_funpow: "(delay n ^^ k) w = w\<lparr>millis := millis w + of_nat (k * n)\<rparr>"
  by (induction k arbitrary: w) (simp_all add: delay_def funpow_swap1 algebra_simps)

lemma drive_funpow:
  "((\<lambda>w. delay n (servo_write d v w)) ^^ k) w =
     w\<lparr>millis := millis w + of_nat (k * n),
       events := events w @ replicate k (ServoWrite d v)\<rparr>"
proof (induction k)
  case 0
  show ?case by simp
next
  case (Suc k)
  let ?f = "\<lambda>w. delay n (servo_write d v w)"
  have "(?f ^^ Suc k) w = ?f ((?f ^^ k) w)" by simp
  also have "\<dots> = ?f (w\<lparr>millis := millis w + of_nat (k * n),
       events := events w @ replicate k (ServoWrite d v)\<rparr>)"
    by (simp only: Suc)
  also have "\<dots> = w\<lparr>millis := millis w + of_nat (Suc k * n),
       events := events w @ replicate (Suc k) (ServoWrite d v)\<rparr>"
    by (simp add: delay_def servo_write_def algebra_simps replicate_append_same)
  finally show ?case .
qed

lemma poll_run:
  assumes "x \<noteq> l" and "\<And>v. switches (body v) = switches v"
  shows "poll p l body (replicate k l @ x # rest) w =
         Returned (((body ^^ k) w)\<lparr>switches := (switches w)(p := rest)\<rparr>)"
  using assms
proof (induction k arbitrary: w)
  case 0
  then show ?case by (simp add: fun_upd_def)
next
  case (Suc k)
  then show ?case by (simp add: funpow_swap1 fun_upd_def cong: if_cong)
qed

lemma poll_stuck:
  assumes "\<And>v. switches (body v) = switches v"
  shows "poll p l body (replicate k l) w =
         Blocked (((body ^^ k) w)\<lparr>switches := (switches w)(p := [])\<rparr>)"
  using assms
proof (induction k arbitrary: w)
  case 0
  then show ?case by (simp add: fun_upd_def)
next
  case (Suc k)
  then show ?case by (simp add: funpow_swap1 fun_upd_def cong: if_cong)
qed

lemma goHomeMinute_pressed:
  assumes "switches w HOME_MINUTE = replicate k HIGH @ LOW # rest"
  shows "goHomeMinute fw w =
     Returned (w\<lparr>currentMinuteOnClock := 0,
                millis := millis w + of_nat (k * HOME_POLL_DELAY fw) + of_nat (HOME_SETTLE_DELAY fw),
                switches := (switches w)(HOME_MINUTE := rest),
                events := events w @
                  replicate k (ServoWrite Minute (SERVO_STOP_POSITION + SERVO_MOVE_OFFSET_MINUTE fw)) @
                  [ServoWrite Minute SERVO_STOP_POSITION, Assign Minute (currentMinuteOnClock w) 0]\<rparr>)"
proof -
  let ?body = "\<lambda>w. delay (HOME_POLL_DELAY fw)
           (servo_write Minute (SERVO_STOP_POSITION + SERVO_MOVE_OFFSET_MINUTE fw) w)"
  have "while_read HOME_MINUTE HIGH ?body w =
        Returned (((?body ^^ k) w)\<lparr>switches := (switches w)(HOME_MINUTE := rest)\<rparr>)"
    unfolding while_read_def assms by (rule poll_run) (simp_all add: delay_def servo_write_def)
  then have "goHomeMinute fw w =
        Returned (delay (HOME_SETTLE_DELAY fw) (assign Minute 0 (servo_write Minute SERVO_STOP_POSITION
          (((?body ^^ k) w)\<lparr>switches := (switches w)(HOME_MINUTE := rest)\<rparr>))))"
    unfolding goHomeMinute_def by simp
  then show ?thesis
    unfolding drive_funpow by (simp add: delay_def servo_write_def)
qed

lemma goHomeHour_pressed:
  assumes "switches w HOME_HOUR = replicate k HIGH @ LOW # rest"
  shows "goHomeHour fw w =
     Returned (w\<lparr>currentHourOnClock := 0,
                millis := millis w + of_nat (k * HOME_POLL_DELAY fw) + of_nat (HOME_SETTLE_DELAY fw),
                switches := (switches w)(HOME_HOUR := rest),
                events := events w @
                  replicate k (ServoWrite Hour (SERVO_STOP_POSITION + SERVO_MOVE_OFFSET_HOUR fw)) @
                  [ServoWrite Hour SERVO_STOP_POSITION, Assign Hour (currentHourOnClock w) 0]\<rparr>)"
proof -
  let ?body = "\<lambda>w. delay (HOME_POLL_DELAY fw)
           (servo_write Hour (SERVO_STOP_POSITION + SERVO_MOVE_OFFSET_HOUR fw) w)"
  have "while_read HOME_HOUR HIGH ?body w =
        Returned (((?body ^^ k) w)\<lparr>switches := (switches w)(HOME_HOUR := rest)\<rparr>)"
    unfolding while_read_def assms by (rule poll_run) (simp_all add: delay_def servo_write_def)
  then have "goHomeHour fw w =
        Returned (delay (HOME_SETTLE_DELAY fw) (assign Hour 0 (servo_write Hour SERVO_STOP_POSITION
          (((?body ^^ k) w)\<lparr>switches := (switches w)(HOME_HOUR := rest)\<rparr>))))"
    unfolding goHomeHour_def by simp
  then show ?thesis
    unfolding drive_funpow by (simp add: delay_def servo_write_def)
qed

lemma goHomeMinute_stuck:
  assumes "switches w HOME_MINUTE = replicate k HIGH"
  shows "goHomeMinute fw w =
     Blocked (w\<lparr>millis := millis w + of_nat (k * HOME_POLL_DELAY fw),
                switches := (switches w)(HOME_MINUTE := []),
                events := events w @
                  replicate k (ServoWrite Minute (SERVO_STOP_POSITION + SERVO_MOVE_OFFSET_MINUTE fw))\<rparr>)"
proof -
  let ?body = "\<lambda>w. delay (HOME_POLL_DELAY fw)
           (servo_write Minute (SERVO_STOP_POSITION + SERVO_MOVE_OFFSET_MINUTE fw) w)"
  have "while_read HOME_MINUTE HIGH ?body w =
        Blocked (((?body ^^ k) w)\<lparr>switches := (switches w)(HOME_MINUTE := [])\<rparr>)"
    unfolding while_read_def assms by (rule poll_stuck) (simp_all add: delay_def servo_write_def)
  then have "goHomeMinute fw w =
        Blocked (((?body ^^ k) w)\<lparr>switches := (switches w)(HOME_MINUTE := [])\<rparr>)"
    unfolding goHomeMinute_def by simp
  then show ?thesis
    unfolding drive_funpow by simp
qed

lemma moveMinuteStep_cycle:
  assumes "switches w STEP_MINUTE = cycle (i, j) @ rest"
  shows "moveMinuteStep fw w =
     Returned (w\<lparr>currentMinuteOnClock := c_rem (currentMinuteOnClock w + 1) 60,
                millis := millis w + of_nat (10 * (i + j)),
                switches := (switches w)(STEP_MINUTE := rest),
                events := events w @
                  [ServoWrite Minute (SERVO_STOP_POSITION + SERVO_MOVE_OFFSET_MINUTE fw),
                   ServoWrite Minute SERVO_STOP_POSITION,
                   Assign Minute (currentMinuteOnClock w) (c_rem (currentMinuteOnClock w + 1) 60)]\<rparr>)"
proof -
  let ?w0 = "servo_write Minute (SERVO_STOP_POSITION + SERVO_MOVE_OFFSET_MINUTE fw) w"
  have s0: "switches ?w0 STEP_MINUTE = replicate i HIGH @ LOW # (replicate j LOW @ HIGH # rest)"
    using assms by (simp add: servo_write_def)
  have a: "while_read STEP_MINUTE HIGH (delay 10) ?w0 =
        Returned (((delay 10 ^^ i) ?w0)\<lparr>switches := (switches ?w0)(STEP_MINUTE := replicate j LOW @ HIGH # rest)\<rparr>)"
    unfolding while_read_def s0 by (rule poll_run) (simp_all add: delay_def)
  let ?w1 = "((delay 10 ^^ i) ?w0)\<lparr>switches := (switches ?w0)(STEP_MINUTE := replicate j LOW @ HIGH # rest)\<rparr>"
  have s1: "switches ?w1 STEP_MINUTE = replicate j LOW @ HIGH # rest" by simp
  have b: "while_read STEP_MINUTE LOW (delay 10) ?w1 =
        Returned (((delay 10 ^^ j) ?w1)\<lparr>switches := (switches ?w1)(STEP_MINUTE := rest)\<rparr>)"
    unfolding while_read_def s1 by (rule poll_run) (simp_all add: delay_def)
  show ?thesis
    unfolding moveMinuteStep_def a andThen.simps b
    by (simp add: delay_funpow servo_write_def algebra_simps)
qed

lemma performHourSingleStep_cycle:
  assumes "switches w STEP_HOUR = cycle (i, j) @ rest"
  shows "performHourSingleStep fw w =
     Returned (w\<lparr>millis := millis w + of_nat (10 * (i + j)),
                switches := (switches w)(STEP_HOUR := rest),
                events := events w @
                  [ServoWrite Hour (SERVO_STOP_POSITION + SERVO_MOVE_OFFSET_HOUR fw),
                   ServoWrite Hour SERVO_STOP_POSITION]\<rparr>)"
proof -
  let ?w0 = "servo_write Hour (SERVO_STOP_POSITION + SERVO_MOVE_OFFSET_HOUR fw) w"
  have s0: "switches ?w0 STEP_HOUR = replicate i HIGH @ LOW # (replicate j LOW @ HIGH # rest)"
    using assms by (simp add: servo_write_def)
  have a: "while_read STEP_HOUR HIGH (delay 10) ?w0 =
        Returned (((delay 10 ^^ i) ?w0)\<lparr>switches := (switches ?w0)(STEP_HOUR := replicate j LOW @ HIGH # rest)\<rparr>)"
    unfolding while_read_def s0 by (rule poll_run) (simp_all add: delay_def)
  let ?w1 = "((delay 10 ^^ i) ?w0)\<lparr>switches := (switches ?w0)(STEP_HOUR := replicate j LOW @ HIGH # rest)\<rparr>"
  have s1: "switches ?w1 STEP_HOUR = replicate j LOW @ HIGH # rest" by simp
  have b: "while_read STEP_HOUR LOW (delay 10) ?w1 =
        Returned (((delay 10 ^^ j) ?w1)\<lparr>switches := (switches ?w1)(STEP_HOUR := rest)\<rparr>)"
    unfolding while_read_def s1 by (rule poll_run) (simp_all add: delay_def)
  show ?thesis
    unfolding performHourSingleStep_def a andThen.simps b
    by (simp add: delay_funpow servo_write_def algebra_simps)
qed

lemma moveHourToNext_cycles:
  assumes "switches w STEP_HOUR = cycle (i, j) @ cycle (i', j') @ rest"
  shows "moveHourToNext fw w =
     Returned (w\<lparr>currentHourOnClock := c_rem (currentHourOnClock w + 1) 24,
                millis := millis w + of_nat (10 * (i + j)) + 100 + of_nat (10 * (i' + j')),
                switches := (switches w)(STEP_HOUR := rest),
                events := events w @
                  [ServoWrite Hour (SERVO_STOP_POSITION + SERVO_MOVE_OFFSET_HOUR fw),
                   ServoWrite Hour SERVO_STOP_POSITION,
                   ServoWrite Hour (SERVO_STOP_POSITION + SERVO_MOVE_OFFSET_HOUR fw),
                   ServoWrite Hour SERVO_STOP_POSITION,
                   Assign Hour (currentHourOnClock w) (c_rem (currentHourOnClock w + 1) 24)]\<rparr>)"
proof -
  have a: "performHourSingleStep fw w =
     Returned (w\<lparr>millis := millis w + of_nat (10 * (i + j)),
                switches := (switches w)(STEP_HOUR := cycle (i', j') @ rest),
                events := events w @
                  [ServoWrite Hour (SERVO_STOP_POSITION + SERVO_MOVE_OFFSET_HOUR fw),
                   ServoWrite Hour SERVO_STOP_POSITION]\<rparr>)"
    by (rule performHourSingleStep_cycle) (rule assms)
  let ?w1 = "delay 100 (w\<lparr>millis := millis w + of_nat (10 * (i + j)),
                switches := (switches w)(STEP_HOUR := cycle (i', j') @ rest),
                events := events w @
                  [ServoWrite Hour (SERVO_STOP_POSITION + SERVO_MOVE_OFFSET_HOUR fw),
                   ServoWrite Hour SERVO_STOP_POSITION]\<rparr>)"
  have "switches ?w1 STEP_HOUR = cycle (i', j') @ rest" by (simp add: delay_def)
  from performHourSingleStep_cycle [OF this, of fw]
  show ?thesis
    unfolding moveHourToNext_def a andThen.simps
    by (simp add: delay_def)
qed

section \<open>Homing and reconciliation\<close>

lemma holds_goHomeMinute:
  assumes q: "quiet fw P" and w: "P w"
    and a: "\<And>v. P v \<Longrightarrow> Q (delay (HOME_SETTLE_DELAY fw) (assign Minute 0 v))"
  shows "holds P Q (goHomeMinute fw w)"
  unfolding goHomeMinute_def
proof (rule holds_andThen [where R = P], rule holds_while_read)
  show "P w" by (rule w)
next
  fix v assume "P v"
  then show "P (delay (HOME_POLL_DELAY fw)
           (servo_write Minute (SERVO_STOP_POSITION + SERVO_MOVE_OFFSET_MINUTE fw) v))"
    using q by (blast dest: quietD)
next
  fix v assume "P v"
  then have "P (servo_write Minute SERVO_STOP_POSITION v)" using q by (blast dest: quietD)
  from a [OF this]
  show "holds P Q (Returned (delay (HOME_SETTLE_DELAY fw)
           (assign Minute 0 (servo_write Minute SERVO_STOP_POSITION v))))"
    by (simp del: assign.simps)
qed (use q in \<open>auto dest: quietD\<close>)

lemma holds_goHomeHour:
  assumes q: "quiet fw P" and w: "P w"
    and a: "\<And>v. P v \<Longrightarrow> Q (delay (HOME_SETTLE_DELAY fw) (assign Hour 0 v))"
  shows "holds P Q (goHomeHour fw w)"
  unfolding goHomeHour_def
proof (rule holds_andThen [where R = P], rule holds_while_read)
  show "P w" by (rule w)
next
  fix v assume "P v"
  then show "P (delay (HOME_POLL_DELAY fw)
           (servo_write Hour (SERVO_STOP_POSITION + SERVO_MOVE_OFFSET_HOUR fw) v))"
    using q by (blast dest: quietD)
next
  fix v assume "P v"
  then have "P (servo_write Hour SERVO_STOP_POSITION v)" using q by (blast dest: quietD)
  from a [OF this]
  show "holds P Q (Returned (delay (HOME_SETTLE_DELAY fw)
           (assign Hour 0 (servo_write Hour SERVO_STOP_POSITION v))))"
    by (simp del: assign.simps)
qed (use q in \<open>auto dest: quietD\<close>)

lemma holds_sync_hour:
  assumes "quiet fw P"
    and "\<And>v. P v \<Longrightarrow> P (assign Hour (c_rem (currentHourOnClock v + 1) 24) v)"
    and "P w"
  shows "holds P (\<lambda>v. P v \<and> currentHourOnClock v = a) (sync_hour fw a w)"
  using assms
proof (induction fw a w rule: sync_hour.induct)
  case (1 fw a w)
  note q = "1.prems"(1) and s = "1.prems"(2)
  show ?case
  proof (cases "currentHourOnClock w = a")
    case True
    with "1.prems" show ?thesis by (simp add: sync_hour.simps)
  next
    case False
    have m: "holds P P (moveHourToNext fw w)"
      by (rule holds_moveHourToNext [OF q "1.prems"(3)]) (rule s)
    show ?thesis
    proof (cases "moveHourToNext fw w")
      case (Blocked v)
      with m False show ?thesis by (simp add: sync_hour.simps [of fw a w])
    next
      case (Returned v)
      with m have "P v" by simp
      from "1.IH" [OF False Returned q s this] False Returned
      show ?thesis by (simp add: sync_hour.simps [of fw a w])
    qed
  qed
qed

lemma holds_sync_minute:
  assumes "quiet fw P"
    and "\<And>v. P v \<Longrightarrow> P (assign Minute (c_rem (currentMinuteOnClock v + 1) 60) v)"
    and "P w"
  shows "holds P (\<lambda>v. P v \<and> currentMinuteOnClock v = a) (sync_minute fw a w)"
  using assms
proof (induction fw a w rule: sync_minute.induct)
  case (1 fw a w)
  note q = "1.prems"(1) and s = "1.prems"(2)
  show ?case
  proof (cases "currentMinuteOnClock w = a")
    case True
    with "1.prems" show ?thesis by (simp add: sync_minute.simps)
  next
    case False
    have m: "holds P P (moveMinuteStep fw w)"
      by (rule holds_moveMinuteStep [OF q "1.prems"(3)]) (rule s)
    show ?thesis
    proof (cases "moveMinuteStep fw w")
      case (Blocked v)
      with m False show ?thesis by (simp add: sync_minute.simps [of fw a w])
    next
      case (Returned v)
      with m have "P v" by simp
      from "1.IH" [OF False Returned q s this] False Returned
      show ?thesis by (simp add: sync_minute.simps [of fw a w])
    qed
  qed
qed

lemma holds_syncClockToRTC:
  assumes s: "steady fw P" and w: "P w"
  shows "holds P P (syncClockToRTC fw w)"
  unfolding syncClockToRTC_def Let_def
proof (rule holds_andThen [where R = P])
  show "holds P P (sync_hour fw (hour (timeSource w)) w)"
    by (rule holds_weaken [OF holds_sync_hour [OF steadyD(1) [OF s] steadyD(3) [OF s] w]])
      simp_all
next
  fix v assume "P v"
  show "holds P P (sync_minute fw (minute (timeSource w)) v)"
    by (rule holds_weaken
          [OF holds_sync_minute [OF steadyD(1) [OF s] steadyD(2) [OF s] \<open>P v\<close>]])
      simp_all
qed

lemma adjusts_append: "adjusts (es @ fs) = adjusts es @ adjusts fs"
  by (induction es rule: adjusts.induct) simp_all

lemma quiet_hour: "quiet fw (\<lambda>w. currentHourOnClock w = c)"
  unfolding quiet_def by (simp add: delay_def servo_write_def)

lemma quiet_minute: "quiet fw (\<lambda>w. currentMinuteOnClock w = c)"
  unfolding quiet_def by (simp add: delay_def servo_write_def)

lemma moveMinuteStep_counter:
  assumes "moveMinuteStep fw w = Returned w'"
  shows "currentMinuteOnClock w' = c_rem (currentMinuteOnClock w + 1) 60"
proof -
  have "holds (\<lambda>v. currentMinuteOnClock v = currentMinuteOnClock w)
          (\<lambda>v. currentMinuteOnClock v = c_rem (currentMinuteOnClock w + 1) 60)
          (moveMinuteStep fw w)"
    by (rule holds_moveMinuteStep [OF quiet_minute]) simp_all
  with assms show ?thesis by simp
qed

lemma moveHourToNext_counter:
  assumes "moveHourToNext fw w = Returned w'"
  shows "currentHourOnClock w' = c_rem (currentHourOnClock w + 1) 24"
proof -
  have "holds (\<lambda>v. currentHourOnClock v = currentHourOnClock w)
          (\<lambda>v. currentHourOnClock v = c_rem (currentHourOnClock w + 1) 24)
          (moveHourToNext fw w)"
    by (rule holds_moveHourToNext [OF quiet_hour]) simp_all
  with assms show ?thesis by simp
qed

lemma advances_zero:
  assumes "- 1 \<le> c" and "c \<le> m - 1" and "0 \<le> a" and "a \<le> m - 1"
  shows "advances m c a = 0 \<longleftrightarrow> c = a"
  using assms by (auto simp: advances_def)

lemma advances_succ:
  assumes "- 1 \<le> c" and "c \<le> m - 1" and "0 \<le> a" and "a \<le> m - 1" and "c \<noteq> a"
  shows "advances m (if c = m - 1 then 0 else c + 1) a + 1 = advances m c a"
  using assms by (auto simp: advances_def)

lemma advances_le:
  assumes "- 1 \<le> c" and "c \<le> m - 1" and "0 \<le> a" and "a \<le> m - 1"
  shows "advances m c a \<le> nat m"
  using assms by (auto simp: advances_def)

lemma sync_hour_unroll:
  assumes "- 1 \<le> currentHourOnClock w" and "currentHourOnClock w \<le> 23"
    and "0 \<le> a" and "a \<le> 23"
  shows "sync_hour fw a w = iterate (advances 24 (currentHourOnClock w) a) (moveHourToNext fw) w"
  using assms
proof (induction n \<equiv> "advances 24 (currentHourOnClock w) a" arbitrary: w)
  case 0
  then have "currentHourOnClock w = a"
    using advances_zero [of "currentHourOnClock w" 24 a] by simp
  with 0 show ?case by (simp add: sync_hour.simps)
next
  case (Suc n)
  then have ne: "currentHourOnClock w \<noteq> a"
    using advances_zero [of "currentHourOnClock w" 24 a] by auto
  show ?case
  proof (cases "moveHourToNext fw w")
    case (Blocked v)
    with ne Suc.hyps(2) [symmetric] show ?thesis
      by (simp add: sync_hour.simps [of fw a w])
  next
    case (Returned v)
    from moveHourToNext_counter [OF Returned] Suc.prems
    have v: "currentHourOnClock v = (if currentHourOnClock w = 23 then 0 else currentHourOnClock w + 1)"
      by (simp add: c_rem_succ_24)
    with advances_succ [of "currentHourOnClock w" 24 a] Suc.prems ne Suc.hyps(2)
    have n: "n = advances 24 (currentHourOnClock v) a" by simp
    have "sync_hour fw a v = iterate (advances 24 (currentHourOnClock v) a) (moveHourToNext fw) v"
      using n v Suc.prems by (intro Suc.hyps(1)) (auto split: if_splits)
    with ne Returned Suc.hyps(2) [symmetric] n show ?thesis
      by (simp add: sync_hour.simps [of fw a w])
  qed
qed

lemma sync_minute_unroll:
  assumes "- 1 \<le> currentMinuteOnClock w" and "currentMinuteOnClock w \<le> 59"
    and "0 \<le> a" and "a \<le> 59"
  shows "sync_minute fw a w =
         iterate (advances 60 (currentMinuteOnClock w) a) (moveMinuteStep fw) w"
  using assms
proof (induction n \<equiv> "advances 60 (currentMinuteOnClock w) a" arbitrary: w)
  case 0
  then have "currentMinuteOnClock w = a"
    using advances_zero [of "currentMinuteOnClock w" 60 a] by simp
  with 0 show ?case by (simp add: sync_minute.simps)
next
  case (Suc n)
  then have ne: "currentMinuteOnClock w \<noteq> a"
    using advances_zero [of "currentMinuteOnClock w" 60 a] by auto
  show ?case
  proof (cases "moveMinuteStep fw w")
    case (Blocked v)
    with ne Suc.hyps(2) [symmetric] show ?thesis
      by (simp add: sync_minute.simps [of fw a w])
  next
    case (Returned v)
    from moveMinuteStep_counter [OF Returned] Suc.prems
    have v: "currentMinuteOnClock v =
        (if currentMinuteOnClock w = 59 then 0 else currentMinuteOnClock w + 1)"
      by (simp add: c_rem_succ_60)
    with advances_succ [of "currentMinuteOnClock w" 60 a] Suc.prems ne Suc.hyps(2)
    have n: "n = advances 60 (currentMinuteOnClock v) a" by simp
    have "sync_minute fw a v =
        iterate (advances 60 (currentMinuteOnClock v) a) (moveMinuteStep fw) v"
      using n v Suc.prems by (intro Suc.hyps(1)) (auto split: if_splits)
    with ne Returned Suc.hyps(2) [symmetric] n show ?thesis
      by (simp add: sync_minute.simps [of fw a w])
  qed
qed

lemma holds_iterate:
  assumes "P w" and "\<And>v. P v \<Longrightarrow> holds P P (f v)"
  shows "holds P P (iterate n f w)"
  using assms(1)
proof (induction n arbitrary: w)
  case 0
  then show ?case by simp
next
  case (Suc n)
  show ?case
    unfolding iterate.simps
    by (rule holds_andThen [where R = P]) (use Suc assms(2) in auto)
qed

lemma syncClockToRTC_unroll:
  assumes "in_range w"
    and "0 \<le> hour (timeSource w)" and "hour (timeSource w) \<le> 23"
    and "0 \<le> minute (timeSource w)" and "minute (timeSource w) \<le> 59"
  shows "syncClockToRTC fw w =
     andThen (iterate (advances 24 (currentHourOnClock w) (hour (timeSource w)))
                (moveHourToNext fw) w)
       (iterate (advances 60 (currentMinuteOnClock w) (minute (timeSource w)))
                (moveMinuteStep fw))"
proof -
  let ?h = "advances 24 (currentHourOnClock w) (hour (timeSource w))"
  let ?P = "\<lambda>v::world. currentMinuteOnClock v = currentMinuteOnClock w"
  have h: "sync_hour fw (hour (timeSource w)) w = iterate ?h (moveHourToNext fw) w"
    using assms by (intro sync_hour_unroll) (simp_all add: in_range_def)
  have keep: "holds ?P ?P (iterate ?h (moveHourToNext fw) w)"
  proof (rule holds_iterate)
    fix v assume "?P v"
    then show "holds ?P ?P (moveHourToNext fw v)"
      by (intro holds_moveHourToNext quiet_minute) simp_all
  qed simp
  show ?thesis
  proof (cases "iterate ?h (moveHourToNext fw) w")
    case (Blocked v)
    then show ?thesis unfolding syncClockToRTC_def Let_def h by simp
  next
    case (Returned v)
    with keep have "currentMinuteOnClock v = currentMinuteOnClock w" by simp
    with assms have "sync_minute fw (minute (timeSource w)) v =
        iterate (advances 60 (currentMinuteOnClock w) (minute (timeSource w)))
          (moveMinuteStep fw) v"
      using sync_minute_unroll [of v "minute (timeSource w)" fw] by (simp add: in_range_def)
    with Returned show ?thesis unfolding syncClockToRTC_def Let_def h by simp
  qed
qed

lemma syncClockToRTC_post:
  assumes "syncClockToRTC fw w = Returned w'"
  shows "currentHourOnClock w' = hour (timeSource w) \<and>
         currentMinuteOnClock w' = minute (timeSource w)"
proof -
  let ?a = "hour (timeSource w)" and ?b = "minute (timeSource w)"
  from assms obtain v where
    v: "sync_hour fw ?a w = Returned v" and w': "sync_minute fw ?b v = Returned w'"
    unfolding syncClockToRTC_def Let_def by (cases "sync_hour fw ?a w") auto
  have "holds (\<lambda>v. True) (\<lambda>v. True \<and> currentHourOnClock v = ?a) (sync_hour fw ?a w)"
    by (rule holds_sync_hour) (simp_all add: quiet_def)
  with v have hv: "currentHourOnClock v = ?a" by simp
  have "holds (\<lambda>v. currentHourOnClock v = ?a)
          (\<lambda>v. currentHourOnClock v = ?a \<and> currentMinuteOnClock v = ?b)
          (sync_minute fw ?b v)"
    by (rule holds_sync_minute [OF quiet_hour _ hv]) simp
  with w' show ?thesis by simp
qed

section \<open>Calls in a row\<close>

lemma cycles_Cons: "cycles (p # ps) = cycle p @ cycles ps"
  by (simp add: cycles_def)

lemma iterate_moveMinuteStep_cycles:
  assumes "switches w STEP_MINUTE = cycles ps @ rest"
  shows "\<exists>w'. iterate (length ps) (moveMinuteStep fw) w = Returned w' \<and>
              switches w' = (switches w)(STEP_MINUTE := rest)"
  using assms
proof (induction ps arbitrary: w)
  case Nil
  then show ?case by (auto simp: cycles_def)
next
  case (Cons p ps)
  obtain i j where p: "p = (i, j)" by (cases p)
  from Cons.prems have "switches w STEP_MINUTE = cycle (i, j) @ (cycles ps @ rest)"
    by (simp add: cycles_Cons p)
  from moveMinuteStep_cycle [OF this, of fw] obtain v where
    v: "moveMinuteStep fw w = Returned v" and
    sv: "switches v = (switches w)(STEP_MINUTE := cycles ps @ rest)"
    by simp
  from sv have "switches v STEP_MINUTE = cycles ps @ rest" by simp
  from Cons.IH [OF this] obtain w' where
    "iterate (length ps) (moveMinuteStep fw) v = Returned w'" and
    "switches w' = (switches v)(STEP_MINUTE := rest)"
    by blast
  with v sv show ?case by (simp add: fun_eq_iff)
qed

lemma iterate_moveHourToNext_cycles:
  assumes "switches w STEP_HOUR = cycles ps @ rest" and "length ps = 2 * n"
  shows "\<exists>w'. iterate n (moveHourToNext fw) w = Returned w' \<and>
              switches w' = (switches w)(STEP_HOUR := rest)"
  using assms
proof (induction n arbitrary: w ps)
  case 0
  then show ?case by (auto simp: cycles_def)
next
  case (Suc n)
  from Suc.prems(2) obtain p q qs where ps: "ps = p # q # qs" and l: "length qs = 2 * n"
    by (cases ps; cases "tl ps") auto
  obtain i j i' j' where p: "p = (i, j)" and q: "q = (i', j')" by (cases p; cases q)
  from Suc.prems(1) have
    "switches w STEP_HOUR = cycle (i, j) @ cycle (i', j') @ (cycles qs @ rest)"
    by (simp add: cycles_Cons ps p q)
  from moveHourToNext_cycles [OF this, of fw] obtain v where
    v: "moveHourToNext fw w = Returned v" and
    sv: "switches v = (switches w)(STEP_HOUR := cycles qs @ rest)"
    by simp
  from sv have "switches v STEP_HOUR = cycles qs @ rest" by simp
  from Suc.IH [OF this l] obtain w' where
    "iterate n (moveHourToNext fw) v = Returned w'" and
    "switches w' = (switches v)(STEP_HOUR := rest)"
    by blast
  with v sv show ?case by (simp add: fun_eq_iff)
qed

section \<open>Properties kept by the button handlers\<close>

lemma settledD:
  assumes "settled fw P"
  shows "steady fw P" and "quiet fw P"
    and "P w \<Longrightarrow> P (w\<lparr>lastButtonPressTime := t\<rparr>)"
    and "P w \<Longrightarrow> P (w\<lparr>currentMode := m\<rparr>)"
    and "P w \<Longrightarrow> P (w\<lparr>settingHour := x\<rparr>)"
    and "P w \<Longrightarrow> P (w\<lparr>settingMinute := x\<rparr>)"
  using assms unfolding settled_def steady_def by blast+

lemma holds_enter_setting:
  assumes s: "settled fw P" and w: "P w"
  shows "P (w\<lparr>lastButtonPressTime := millis w, currentMode := SETTING_MODE,
               settingHour := hour (timeSource w), settingMinute := minute (timeSource w)\<rparr>)"
  by (intro settledD(3-6) [OF s] w)

lemma holds_hour_button:
  assumes s: "settled fw P" and w: "P w"
  shows "holds P P (moveHourToNext fw
          (w\<lparr>lastButtonPressTime := millis w, settingHour := c_rem (settingHour w + 1) 24\<rparr>))"
  by (intro holds_moveHourToNext settledD(2) [OF s] settledD(3-6) [OF s] w
        steadyD(3) [OF settledD(1) [OF s]])

lemma holds_minute_button:
  assumes s: "settled fw P" and w: "P w"
  shows "holds P P (moveMinuteStep fw
          (w\<lparr>lastButtonPressTime := millis w, settingMinute := c_rem (settingMinute w + 1) 60\<rparr>))"
  by (intro holds_moveMinuteStep settledD(2) [OF s] settledD(3-6) [OF s] w
        steadyD(2) [OF settledD(1) [OF s]])

lemma holds_save_button:
  assumes s: "settled fw P" and w: "P w" and a: "\<And>v t. P v \<Longrightarrow> P (rtc_adjust t v)"
  shows "P ((rtc_adjust t (w\<lparr>lastButtonPressTime := millis w\<rparr>))\<lparr>currentMode := NORMAL_MODE\<rparr>)"
  by (intro settledD(3-6) [OF s] a w)

lemma holds_cancel_button:
  assumes s: "settled fw P" and w: "P w"
  shows "holds P P (syncClockToRTC fw
          (w\<lparr>lastButtonPressTime := millis w, currentMode := NORMAL_MODE\<rparr>))"
  by (intro holds_syncClockToRTC settledD(1) [OF s] settledD(3-6) [OF s] w)

lemma holds_handleButtons_PCF8574:
  assumes s: "settled FlipClock_RTC_PCF8574 P" and w: "P w"
    and a: "\<And>v t. BTN_SAVE b = LOW \<Longrightarrow> P v \<Longrightarrow> P (rtc_adjust t v)"
  shows "holds P P (handleButtons_PCF8574 b w)"
proof -
  note h = holds_hour_button [OF s w] and m = holds_minute_button [OF s w]
    and c = holds_cancel_button [OF s w] and e = holds_enter_setting [OF s w]
  have sv: "BTN_SAVE b = LOW \<Longrightarrow>
      P ((rtc_adjust t (w\<lparr>lastButtonPressTime := millis w\<rparr>))\<lparr>currentMode := NORMAL_MODE\<rparr>)" for t
    by (rule holds_save_button [OF s w]) (rule a)
  show ?thesis
    unfolding handleButtons_PCF8574_def Let_def
    using h m c e sv w by simp
qed

lemma holds_handleButtons_GPIO:
  assumes s: "settled FlipClock_RTC_GPIO P" and w: "P w"
    and a: "\<And>v t. BTN_SAVE b = LOW \<Longrightarrow> P v \<Longrightarrow> P (rtc_adjust t v)"
  shows "holds P P (handleButtons_GPIO b w)"
proof -
  have tail: "holds P P
     (andThen
        (if BTN_HOUR_INC b = LOW then
           moveHourToNext FlipClock_RTC_GPIO
             (w\<lparr>lastButtonPressTime := millis w,
                settingHour := c_rem (settingHour w + 1) 24\<rparr>)
         else Returned w)
      (\<lambda>w. andThen
        (if BTN_MINUTE_INC b = LOW then
           moveMinuteStep FlipClock_RTC_GPIO
             (w\<lparr>lastButtonPressTime := millis w,
                settingMinute := c_rem (settingMinute w + 1) 60\<rparr>)
         else Returned w)
      (\<lambda>w. andThen
        (if BTN_SAVE b = LOW then
           Returned ((rtc_adjust
               \<lparr>year = 2025, month = 6, day = 23,
                hour = settingHour w, minute = settingMinute w, second = 0\<rparr>
               (w\<lparr>lastButtonPressTime := millis w\<rparr>))\<lparr>currentMode := NORMAL_MODE\<rparr>)
         else Returned w)
      (\<lambda>w.
        if BTN_MODE_CANCEL b = LOW then
          syncClockToRTC FlipClock_RTC_GPIO
            (w\<lparr>lastButtonPressTime := millis w, currentMode := NORMAL_MODE\<rparr>)
        else Returned w))))"
  proof (rule holds_andThen [where R = P])
    show "holds P P (if BTN_HOUR_INC b = LOW then
           moveHourToNext FlipClock_RTC_GPIO
             (w\<lparr>lastButtonPressTime := millis w,
                settingHour := c_rem (settingHour w + 1) 24\<rparr>)
         else Returned w)"
      using holds_hour_button [OF s w] w by simp
  next
    fix v assume v: "P v"
    show "holds P P (andThen
        (if BTN_MINUTE_INC b = LOW then
           moveMinuteStep FlipClock_RTC_GPIO
             (v\<lparr>lastButtonPressTime := millis v,
                settingMinute := c_rem (settingMinute v + 1) 60\<rparr>)
         else Returned v)
      (\<lambda>w. andThen
        (if BTN_SAVE b = LOW then
           Returned ((rtc_adjust
               \<lparr>year = 2025, month = 6, day = 23,
                hour = settingHour w, minute = settingMinute w, second = 0\<rparr>
               (w\<lparr>lastButtonPressTime := millis w\<rparr>))\<lparr>currentMode := NORMAL_MODE\<rparr>)
         else Returned w)
      (\<lambda>w.
        if BTN_MODE_CANCEL b = LOW then
          syncClockToRTC FlipClock_RTC_GPIO
            (w\<lparr>lastButtonPressTime := millis w, currentMode := NORMAL_MODE\<rparr>)
        else Returned w)))"
    proof (rule holds_andThen [where R = P])
      show "holds P P (if BTN_MINUTE_INC b = LOW then
           moveMinuteStep FlipClock_RTC_GPIO
             (v\<lparr>lastButtonPressTime := millis v,
                settingMinute := c_rem (settingMinute v + 1) 60\<rparr>)
         else Returned v)"
        using holds_minute_button [OF s v] v by simp
    next
      fix u assume u: "P u"
      have sv: "BTN_SAVE b = LOW \<Longrightarrow>
        P ((rtc_adjust t (u\<lparr>lastButtonPressTime := millis u\<rparr>))\<lparr>currentMode := NORMAL_MODE\<rparr>)"
        for t
        by (rule holds_save_button [OF s u]) (rule a)
      show "holds P P (andThen
        (if BTN_SAVE b = LOW then
           Returned ((rtc_adjust
               \<lparr>year = 2025, month = 6, day = 23,
                hour = settingHour u, minute = settingMinute u, second = 0\<rparr>
               (u\<lparr>lastButtonPressTime := millis u\<rparr>))\<lparr>currentMode := NORMAL_MODE\<rparr>)
         else Returned u)
      (\<lambda>w.
        if BTN_MODE_CANCEL b = LOW then
          syncClockToRTC FlipClock_RTC_GPIO
            (w\<lparr>lastButtonPressTime := millis w, currentMode := NORMAL_MODE\<rparr>)
        else Returned w))"
      proof (rule holds_andThen [where R = P])
        show "holds P P (if BTN_SAVE b = LOW then
           Returned ((rtc_adjust
               \<lparr>year = 2025, month = 6, day = 23,
                hour = settingHour u, minute = settingMinute u, second = 0\<rparr>
               (u\<lparr>lastButtonPressTime := millis u\<rparr>))\<lparr>currentMode := NORMAL_MODE\<rparr>)
         else Returned u)"
          using sv u by simp
      next
        fix x assume x: "P x"
        show "holds P P (if BTN_MODE_CANCEL b = LOW then
          syncClockToRTC FlipClock_RTC_GPIO
            (x\<lparr>lastButtonPressTime := millis x, currentMode := NORMAL_MODE\<rparr>)
        else Returned x)"
          using holds_cancel_button [OF s x] x by simp
      qed
    qed
  qed
  show ?thesis
    unfolding handleButtons_GPIO_def
    using tail holds_enter_setting [OF s w] w by simp
qed

section \<open>The samples a returning call has taken\<close>

lemma poll_Returned_shape:
  assumes "poll p l body xs w = Returned w'"
  shows "\<exists>k x rest. xs = replicate k l @ x # rest \<and> x \<noteq> l"
  using assms
proof (induction xs arbitrary: w)
  case Nil
  then show ?case by simp
next
  case (Cons y ys)
  show ?case
  proof (cases "y = l")
    case True
    with Cons.prems have "poll p l body ys (body w) = Returned w'" by simp
    from Cons.IH [OF this] obtain k x rest where "ys = replicate k l @ x # rest" "x \<noteq> l"
      by blast
    with True have "y # ys = replicate (Suc k) l @ x # rest \<and> x \<noteq> l" by simp
    then show ?thesis by blast
  next
    case False
    then have "y # ys = replicate 0 l @ y # ys \<and> y \<noteq> l" by simp
    then show ?thesis by blast
  qed
qed

lemma not_HIGH: "x \<noteq> HIGH \<longleftrightarrow> x = LOW"
  by (cases x) simp_all





lemma goHomeMinute_shape:
  assumes "goHomeMinute fw w = Returned w'"
  shows "\<exists>k rest. switches w HOME_MINUTE = replicate k HIGH @ LOW # rest"
proof -
  let ?body = "\<lambda>w. delay (HOME_POLL_DELAY fw)
           (servo_write Minute (SERVO_STOP_POSITION + SERVO_MOVE_OFFSET_MINUTE fw) w)"
  from assms obtain v where "while_read HOME_MINUTE HIGH ?body w = Returned v"
    unfolding goHomeMinute_def by (cases "while_read HOME_MINUTE HIGH ?body w") auto
  then obtain k x rest where "switches w HOME_MINUTE = replicate k HIGH @ x # rest" "x \<noteq> HIGH"
    unfolding while_read_def by (blast dest: poll_Returned_shape)
  then show ?thesis by (auto simp: not_HIGH)
qed

lemma goHomeHour_shape:
  assumes "goHomeHour fw w = Returned w'"
  shows "\<exists>k rest. switches w HOME_HOUR = replicate k HIGH @ LOW # rest"
proof -
  let ?body = "\<lambda>w. delay (HOME_POLL_DELAY fw)
           (servo_write Hour (SERVO_STOP_POSITION + SERVO_MOVE_OFFSET_HOUR fw) w)"
  from assms obtain v where "while_read HOME_HOUR HIGH ?body w = Returned v"
    unfolding goHomeHour_def by (cases "while_read HOME_HOUR HIGH ?body w") auto
  then obtain k x rest where "switches w HOME_HOUR = replicate k HIGH @ x # rest" "x \<noteq> HIGH"
    unfolding while_read_def by (blast dest: poll_Returned_shape)
  then show ?thesis by (auto simp: not_HIGH)
qed

lemma c_rem_small:
  assumes "- m < c" and "c < m"
  shows "c_rem c m = c"
  using assms by (cases "0 \<le> c") (simp_all add: c_rem_def sgn_if)

lemma iterate_minute_counter:
  assumes "iterate n (moveMinuteStep fw) w = Returned w'"
    and "- 1 \<le> currentMinuteOnClock w" and "currentMinuteOnClock w \<le> 59"
  shows "currentMinuteOnClock w' = c_rem (currentMinuteOnClock w + int n) 60"
  using assms
proof (induction n arbitrary: w)
  case 0
  then show ?case by (simp add: c_rem_small)
next
  case (Suc n)
  from Suc.prems(1) obtain v where v: "moveMinuteStep fw w = Returned v"
    and w': "iterate n (moveMinuteStep fw) v = Returned w'"
    by (cases "moveMinuteStep fw w") auto
  let ?c = "currentMinuteOnClock w"
  have cv: "currentMinuteOnClock v = (?c + 1) mod 60"
    using moveMinuteStep_counter [OF v] Suc.prems(2) by (simp add: c_rem_nonneg)
  then have "0 \<le> currentMinuteOnClock v" "currentMinuteOnClock v \<le> 59" by simp_all
  with Suc.IH [OF w'] have "currentMinuteOnClock w' = c_rem ((?c + 1) mod 60 + int n) 60"
    by (simp add: cv)
  also have "\<dots> = ((?c + 1) mod 60 + int n) mod 60" by (simp add: c_rem_nonneg)
  also have "\<dots> = (?c + 1 + int n) mod 60" by (simp add: mod_add_left_eq)
  also have "\<dots> = c_rem (?c + int (Suc n)) 60"
    using Suc.prems(2) by (simp add: c_rem_nonneg add.assoc)
  finally show ?case .
qed

lemma iterate_hour_counter:
  assumes "iterate n (moveHourToNext fw) w = Returned w'"
    and "- 1 \<le> currentHourOnClock w" and "currentHourOnClock w \<le> 23"
  shows "currentHourOnClock w' = c_rem (currentHourOnClock w + int n) 24"
  using assms
proof (induction n arbitrary: w)
  case 0
  then show ?case by (simp add: c_rem_small)
next
  case (Suc n)
  from Suc.prems(1) obtain v where v: "moveHourToNext fw w = Returned v"
    and w': "iterate n (moveHourToNext fw) v = Returned w'"
    by (cases "moveHourToNext fw w") auto
  let ?c = "currentHourOnClock w"
  have cv: "currentHourOnClock v = (?c + 1) mod 24"
    using moveHourToNext_counter [OF v] Suc.prems(2) by (simp add: c_rem_nonneg)
  then have "0 \<le> currentHourOnClock v" "currentHourOnClock v \<le> 23" by simp_all
  with Suc.IH [OF w'] have "currentHourOnClock w' = c_rem ((?c + 1) mod 24 + int n) 24"
    by (simp add: cv)
  also have "\<dots> = ((?c + 1) mod 24 + int n) mod 24" by (simp add: c_rem_nonneg)
  also have "\<dots> = (?c + 1 + int n) mod 24" by (simp add: mod_add_left_eq)
  also have "\<dots> = c_rem (?c + int (Suc n)) 24"
    using Suc.prems(2) by (simp add: c_rem_nonneg add.assoc)
  finally show ?case .
qed

lemma goHomeMinute_zero:
  assumes "goHomeMinute fw w = Returned w'"
  shows "currentMinuteOnClock w' = 0"
proof -
  have "holds (\<lambda>v. True) (\<lambda>v. currentMinuteOnClock v = 0) (goHomeMinute fw w)"
    by (rule holds_goHomeMinute) (simp_all add: quiet_def delay_def)
  with assms show ?thesis by simp
qed

lemma goHomeHour_zero:
  assumes "goHomeHour fw w = Returned w'"
  shows "currentHourOnClock w' = 0"
proof -
  have "holds (\<lambda>v. True) (\<lambda>v. currentHourOnClock v = 0) (goHomeHour fw w)"
    by (rule holds_goHomeHour) (simp_all add: quiet_def delay_def)
  with assms show ?thesis by simp
qed


section \<open>Loops, start-up and runs\<close>

lemma holds_loop_RTC_PCF8574:
  assumes s: "settled FlipClock_RTC_PCF8574 P" and w: "P w"
    and a: "\<And>v t. BTN_SAVE b = LOW \<Longrightarrow> P v \<Longrightarrow> P (rtc_adjust t v)"
  shows "holds P P (loop_RTC_PCF8574 b w)"
  unfolding loop_RTC_PCF8574_def
proof (rule holds_andThen [where R = P])
  show "holds P P (handleButtons_PCF8574 b w)"
    using s w a by (rule holds_handleButtons_PCF8574)
next
  fix v assume v: "P v"
  have "holds P P (andThen (syncClockToRTC FlipClock_RTC_PCF8574 v) (\<lambda>w. Returned (delay 1000 w)))"
    by (rule holds_andThen [where R = P])
       (use v s in \<open>auto intro: holds_syncClockToRTC settledD quietD\<close>)
  moreover have "P (delay 50 v)" using settledD(2) [OF s] v by (rule quietD)
  ultimately show "holds P P (if currentMode v = NORMAL_MODE then
               andThen (syncClockToRTC FlipClock_RTC_PCF8574 v)
                 (\<lambda>w. Returned (delay 1000 w))
             else Returned (delay 50 v))"
    by simp
qed

lemma holds_loop_RTC_GPIO:
  assumes s: "settled FlipClock_RTC_GPIO P" and w: "P w"
    and a: "\<And>v t. BTN_SAVE b = LOW \<Longrightarrow> P v \<Longrightarrow> P (rtc_adjust t v)"
  shows "holds P P (loop_RTC_GPIO b w)"
  unfolding loop_RTC_GPIO_def
proof (rule holds_andThen [where R = P])
  show "holds P P (handleButtons_GPIO b w)"
    using s w a by (rule holds_handleButtons_GPIO)
next
  fix v assume v: "P v"
  have "holds P P (andThen (syncClockToRTC FlipClock_RTC_GPIO v) (\<lambda>w. Returned (delay 1000 w)))"
    by (rule holds_andThen [where R = P])
       (use v s in \<open>auto intro: holds_syncClockToRTC settledD quietD\<close>)
  moreover have "P (delay 50 v)" using settledD(2) [OF s] v by (rule quietD)
  ultimately show "holds P P (if currentMode v = NORMAL_MODE then
               andThen (syncClockToRTC FlipClock_RTC_GPIO v)
                 (\<lambda>w. Returned (delay 1000 w))
             else Returned (delay 50 v))"
    by simp
qed

lemma holds_loop_WiFi:
  assumes s: "steady FlipClock_WiFi P" and w: "P w"
  shows "holds P P (loop_WiFi w)"
  unfolding loop_WiFi_def Let_def
proof (rule holds_andThen [where R = P])
  show "holds P P (if currentMinuteOnClock w \<noteq> minute (timeSource w)
          then moveMinuteStep FlipClock_WiFi w else Returned w)"
    using holds_moveMinuteStep [where P = P and Q = P, OF steadyD(1) [OF s] w steadyD(2) [OF s]] w by simp
next
  fix v assume v: "P v"
  show "holds P P (andThen
           (if currentHourOnClock v \<noteq> hour (timeSource w) then moveHourToNext FlipClock_WiFi v
            else Returned v)
         (\<lambda>w. Returned (delay 1000 w)))"
  proof (rule holds_andThen [where R = P])
    show "holds P P (if currentHourOnClock v \<noteq> hour (timeSource w)
            then moveHourToNext FlipClock_WiFi v else Returned v)"
      using holds_moveHourToNext [where P = P and Q = P, OF steadyD(1) [OF s] v steadyD(3) [OF s]] v by simp
  next
    fix u assume "P u"
    then show "holds P P (Returned (delay 1000 u))"
      using quietD(1) [OF steadyD(1) [OF s]] by simp
  qed
qed

lemma run_holds:
  assumes "run su lp r"
    and "\<And>s t. holds B R (su (power_on s t))"
    and "\<And>b w. R w \<Longrightarrow> holds B R (lp b w)"
    and "\<And>w s t m. R w \<Longrightarrow> R (w\<lparr>switches := s, timeSource := t, millis := m\<rparr>)"
  shows "holds B R r"
  using assms
proof (induction rule: run.induct)
  case (boot s t)
  then show ?case by blast
next
  case (pass w b s t m)
  then have "R w" by simp
  with pass.prems show ?case by blast
qed

lemma settled_in_range: "settled fw in_range"
  unfolding settled_def steady_def quiet_def in_range_def
  by (simp add: delay_def servo_write_def c_rem_succ_60 c_rem_succ_24)

lemma settled_known: "settled fw (known d)"
  unfolding settled_def steady_def quiet_def
  by (cases d) (simp_all add: delay_def servo_write_def c_rem_succ_60 c_rem_succ_24)

lemma settled_conj:
  assumes "settled fw P" and "settled fw Q"
  shows "settled fw (\<lambda>w. P w \<and> Q w)"
  using assms unfolding settled_def steady_def quiet_def by simp

lemma in_range_rtc_adjust: "in_range (rtc_adjust t w) = in_range w"
  by (simp add: in_range_def rtc_adjust_def)

lemma known_rtc_adjust: "known d (rtc_adjust t w) = known d w"
  by (cases d) (simp_all add: rtc_adjust_def)

lemma in_range_home:
  "in_range w \<Longrightarrow> in_range (delay n (assign d 0 w))"
  by (cases d) (simp_all add: in_range_def delay_def)

lemma known_home:
  "known d w \<Longrightarrow> known d (delay n (assign d' 0 w))"
  by (cases d; cases d') (simp_all add: delay_def)

text \<open>Every operation keeps a property that all the writes of the sketches keep.\<close>

lemma holds_perform:
  assumes s: "\<And>fw. settled fw P" and w: "P w"
    and a: "\<And>v t. P v \<Longrightarrow> P (rtc_adjust t v)"
    and h: "\<And>v n d. P v \<Longrightarrow> P (delay n (assign d 0 v))"
  shows "holds P P (perform fw op w)"
proof (cases op)
  case GoHomeMinute
  then show ?thesis using holds_goHomeMinute [where P = P and Q = P and fw = fw, OF settledD(2) [OF s] w h] by simp
next
  case GoHomeHour
  then show ?thesis using holds_goHomeHour [where P = P and Q = P and fw = fw, OF settledD(2) [OF s] w h] by simp
next
  case MoveMinuteStep
  then show ?thesis
    using holds_moveMinuteStep [where P = P and Q = P and fw = fw, OF settledD(2) [OF s] w steadyD(2) [OF settledD(1) [OF s]]]
    by simp
next
  case PerformHourSingleStep
  then show ?thesis using holds_performHourSingleStep [where fw = fw, OF settledD(2) [OF s] w] by simp
next
  case MoveHourToNext
  then show ?thesis
    using holds_moveHourToNext [where P = P and Q = P and fw = fw, OF settledD(2) [OF s] w steadyD(3) [OF settledD(1) [OF s]]]
    by simp
next
  case SyncClockToRTC
  then show ?thesis using holds_syncClockToRTC [where fw = fw, OF settledD(1) [OF s] w] by simp
next
  case (HandleButtons_PCF8574 b)
  then show ?thesis using holds_handleButtons_PCF8574 [OF s w a] by simp
next
  case (HandleButtons_GPIO b)
  then show ?thesis using holds_handleButtons_GPIO [OF s w a] by simp
next
  case (Loop_RTC_PCF8574 b)
  then show ?thesis using holds_loop_RTC_PCF8574 [OF s w a] by simp
next
  case (Loop_RTC_GPIO b)
  then show ?thesis using holds_loop_RTC_GPIO [OF s w a] by simp
next
  case Loop_WiFi
  then show ?thesis using holds_loop_WiFi [OF settledD(1) [OF s] w] by simp
qed

lemma settled_homed: "settled fw homed"
  unfolding homed_def by (intro settled_conj settled_known)

lemma homed_in_range: "homed w \<Longrightarrow> in_range w"
  by (simp add: homed_def in_range_def)

lemma holds_home_hour_minute:
  assumes w: "in_range w" and k: "\<And>v. homed v \<Longrightarrow> holds in_range homed (k v)"
  shows "holds in_range homed
           (andThen (goHomeHour fw w) (\<lambda>w. andThen (goHomeMinute fw w) k))"
proof (rule holds_andThen [where R = "\<lambda>v. in_range v \<and> currentHourOnClock v = 0"])
  show "holds in_range (\<lambda>v. in_range v \<and> currentHourOnClock v = 0) (goHomeHour fw w)"
    by (rule holds_goHomeHour [OF settledD(2) [OF settled_in_range] w])
       (simp add: in_range_def delay_def)
next
  fix v assume v: "in_range v \<and> currentHourOnClock v = 0"
  have q: "quiet fw (\<lambda>v. in_range v \<and> currentHourOnClock v = 0)"
    using settledD(2) [OF settled_in_range, of fw] quiet_hour [of fw 0]
    unfolding quiet_def by simp
  have "holds (\<lambda>v. in_range v \<and> currentHourOnClock v = 0) homed (goHomeMinute fw v)"
    by (rule holds_goHomeMinute [OF q v]) (simp add: in_range_def homed_def delay_def)
  then have "holds in_range homed (goHomeMinute fw v)"
    by (rule holds_weaken) simp_all
  then show "holds in_range homed (andThen (goHomeMinute fw v) k)"
    by (rule holds_andThen) (rule k)
qed

lemma holds_home_minute_hour:
  assumes w: "in_range w" and k: "\<And>v. homed v \<Longrightarrow> holds in_range homed (k v)"
  shows "holds in_range homed
           (andThen (goHomeMinute fw w) (\<lambda>w. andThen (goHomeHour fw w) k))"
proof (rule holds_andThen [where R = "\<lambda>v. in_range v \<and> currentMinuteOnClock v = 0"])
  show "holds in_range (\<lambda>v. in_range v \<and> currentMinuteOnClock v = 0) (goHomeMinute fw w)"
    by (rule holds_goHomeMinute [OF settledD(2) [OF settled_in_range] w])
       (simp add: in_range_def delay_def)
next
  fix v assume v: "in_range v \<and> currentMinuteOnClock v = 0"
  have q: "quiet fw (\<lambda>v. in_range v \<and> currentMinuteOnClock v = 0)"
    using settledD(2) [OF settled_in_range, of fw] quiet_minute [of fw 0]
    unfolding quiet_def by simp
  have "holds (\<lambda>v. in_range v \<and> currentMinuteOnClock v = 0) homed (goHomeHour fw v)"
    by (rule holds_goHomeHour [OF q v]) (simp add: in_range_def homed_def delay_def)
  then have "holds in_range homed (goHomeHour fw v)"
    by (rule holds_weaken) simp_all
  then show "holds in_range homed (andThen (goHomeHour fw v) k)"
    by (rule holds_andThen) (rule k)
qed

lemma holds_sync_homed:
  assumes "homed v"
  shows "holds in_range homed (syncClockToRTC fw v)"
  by (rule holds_weaken [OF holds_syncClockToRTC [OF settledD(1) [OF settled_homed] assms]])
     (simp_all add: homed_in_range)

lemma in_range_power_on: "in_range (power_on s t)"
  by (simp add: in_range_def power_on_def)

lemma in_range_servo_write: "in_range (servo_write d v w) = in_range w"
  by (simp add: in_range_def servo_write_def)

lemma holds_setup_RTC_PCF8574:
  "holds in_range homed (setup_RTC_PCF8574 found lost built (power_on s t))"
  unfolding setup_RTC_PCF8574_def
  by (auto intro!: holds_home_hour_minute holds_sync_homed
        simp: in_range_power_on in_range_servo_write in_range_rtc_adjust)

lemma holds_setup_RTC_GPIO:
  "holds in_range homed (setup_RTC_GPIO found lost built (power_on s t))"
  unfolding setup_RTC_GPIO_def Let_def
  by (auto intro!: holds_home_minute_hour holds_sync_homed
        simp: in_range_power_on in_range_servo_write in_range_rtc_adjust)

lemma holds_setup_WiFi:
  "holds in_range homed (setup_WiFi connected updated (power_on s t))"
  unfolding setup_WiFi_def Let_def
  by (auto intro!: holds_home_minute_hour
        simp: in_range_power_on in_range_servo_write homed_in_range)

lemma homed_env: "homed w \<Longrightarrow> homed (w\<lparr>switches := s, timeSource := t, millis := m\<rparr>)"
  by (simp add: homed_def)

lemma homed_rtc_adjust: "homed v \<Longrightarrow> homed (rtc_adjust t v)"
  by (simp add: homed_def known_rtc_adjust)

lemma holds_loop_homed:
  assumes "homed w"
  shows "holds in_range homed (loop_RTC_PCF8574 b w)"
    and "holds in_range homed (loop_RTC_GPIO b w)"
    and "holds in_range homed (loop_WiFi w)"
proof -
  show "holds in_range homed (loop_RTC_PCF8574 b w)"
    by (rule holds_weaken [OF holds_loop_RTC_PCF8574 [OF settled_homed assms]])
       (simp_all add: homed_rtc_adjust homed_in_range)
  show "holds in_range homed (loop_RTC_GPIO b w)"
    by (rule holds_weaken [OF holds_loop_RTC_GPIO [OF settled_homed assms]])
       (simp_all add: homed_rtc_adjust homed_in_range)
  show "holds in_range homed (loop_WiFi w)"
    by (rule holds_weaken [OF holds_loop_WiFi [OF settledD(1) [OF settled_homed] assms]])
       (simp_all add: homed_in_range)
qed

lemma reachable_range:
  assumes "reachable r"
  shows "holds in_range homed r"
proof -
  from assms consider
    found lost built where "run (setup_RTC_PCF8574 found lost built) loop_RTC_PCF8574 r"
  | found lost built where "run (setup_RTC_GPIO found lost built) loop_RTC_GPIO r"
  | connected updated where "run (setup_WiFi connected updated) (\<lambda>b. loop_WiFi) r"
    unfolding reachable_def by blast
  then show ?thesis
  proof cases
    case 1
    then show ?thesis
      by (rule run_holds) (simp_all add: holds_setup_RTC_PCF8574 holds_loop_homed homed_env)
  next
    case 2
    then show ?thesis
      by (rule run_holds) (simp_all add: holds_setup_RTC_GPIO holds_loop_homed homed_env)
  next
    case 3
    then show ?thesis
      by (rule run_holds) (simp_all add: holds_setup_WiFi holds_loop_homed homed_env)
  qed
qed


lemma legal_forward:
  assumes "legal fw e" and "0 \<le> SERVO_MOVE_OFFSET_MINUTE fw" and "SERVO_MOVE_OFFSET_HOUR fw \<le> 0"
  shows "forward e"
proof (cases e)
  case (ServoWrite d v)
  with assms show ?thesis by (cases d) auto
qed simp_all

lemma lawful_forward:
  assumes "lawful fw w" and "0 \<le> SERVO_MOVE_OFFSET_MINUTE fw" and "SERVO_MOVE_OFFSET_HOUR fw \<le> 0"
  shows "list_all forward (events w)"
  using assms unfolding lawful_def list_all_iff by (blast intro: legal_forward)

lemma settled_lawful: "settled fw (lawful fw)"
  unfolding settled_def steady_def quiet_def lawful_def
  by (simp add: delay_def servo_write_def)

lemma lawful_rtc_adjust: "lawful fw v \<Longrightarrow> lawful fw (rtc_adjust t v)"
  by (simp add: lawful_def rtc_adjust_def)

lemma lawful_env: "lawful fw w \<Longrightarrow> lawful fw (w\<lparr>switches := s, timeSource := t, millis := m\<rparr>)"
  by (simp add: lawful_def)

lemma lawful_home_hour_minute:
  assumes w: "lawful fw w" "currentMinuteOnClock w = - 1" "currentHourOnClock w = - 1"
    and k: "\<And>v. lawful fw v \<Longrightarrow> holds (lawful fw) (lawful fw) (k v)"
  shows "holds (lawful fw) (lawful fw)
           (andThen (goHomeHour fw w) (\<lambda>w. andThen (goHomeMinute fw w) k))"
proof (rule holds_andThen [where R = "\<lambda>v. lawful fw v \<and> currentMinuteOnClock v = - 1"])
  let ?P = "\<lambda>v. lawful fw v \<and> currentMinuteOnClock v = - 1 \<and> currentHourOnClock v = - 1"
  have q: "quiet fw ?P"
    using settledD(2) [OF settled_lawful, of fw] quiet_hour [of fw "- 1"]
      quiet_minute [of fw "- 1"]
    unfolding quiet_def by simp
  have "holds ?P (\<lambda>v. lawful fw v \<and> currentMinuteOnClock v = - 1) (goHomeHour fw w)"
    by (rule holds_goHomeHour [OF q]) (use w in \<open>simp_all add: lawful_def delay_def c_rem_def\<close>)
  then show "holds (lawful fw) (\<lambda>v. lawful fw v \<and> currentMinuteOnClock v = - 1)
      (goHomeHour fw w)"
    by (rule holds_weaken) simp_all
next
  fix v assume v: "lawful fw v \<and> currentMinuteOnClock v = - 1"
  have q: "quiet fw (\<lambda>v. lawful fw v \<and> currentMinuteOnClock v = - 1)"
    using settledD(2) [OF settled_lawful, of fw] quiet_minute [of fw "- 1"]
    unfolding quiet_def by simp
  have "holds (\<lambda>v. lawful fw v \<and> currentMinuteOnClock v = - 1) (lawful fw) (goHomeMinute fw v)"
    by (rule holds_goHomeMinute [OF q v]) (simp add: lawful_def delay_def c_rem_def)
  then have "holds (lawful fw) (lawful fw) (goHomeMinute fw v)"
    by (rule holds_weaken) simp_all
  then show "holds (lawful fw) (lawful fw) (andThen (goHomeMinute fw v) k)"
    by (rule holds_andThen) (rule k)
qed

lemma lawful_home_minute_hour:
  assumes w: "lawful fw w" "currentMinuteOnClock w = - 1" "currentHourOnClock w = - 1"
    and k: "\<And>v. lawful fw v \<Longrightarrow> holds (lawful fw) (lawful fw) (k v)"
  shows "holds (lawful fw) (lawful fw)
           (andThen (goHomeMinute fw w) (\<lambda>w. andThen (goHomeHour fw w) k))"
proof (rule holds_andThen [where R = "\<lambda>v. lawful fw v \<and> currentHourOnClock v = - 1"])
  let ?P = "\<lambda>v. lawful fw v \<and> currentMinuteOnClock v = - 1 \<and> currentHourOnClock v = - 1"
  have q: "quiet fw ?P"
    using settledD(2) [OF settled_lawful, of fw] quiet_hour [of fw "- 1"]
      quiet_minute [of fw "- 1"]
    unfolding quiet_def by simp
  have "holds ?P (\<lambda>v. lawful fw v \<and> currentHourOnClock v = - 1) (goHomeMinute fw w)"
    by (rule holds_goHomeMinute [OF q]) (use w in \<open>simp_all add: lawful_def delay_def c_rem_def\<close>)
  then show "holds (lawful fw) (\<lambda>v. lawful fw v \<and> currentHourOnClock v = - 1)
      (goHomeMinute fw w)"
    by (rule holds_weaken) simp_all
next
  fix v assume v: "lawful fw v \<and> currentHourOnClock v = - 1"
  have q: "quiet fw (\<lambda>v. lawful fw v \<and> currentHourOnClock v = - 1)"
    using settledD(2) [OF settled_lawful, of fw] quiet_hour [of fw "- 1"]
    unfolding quiet_def by simp
  have "holds (\<lambda>v. lawful fw v \<and> currentHourOnClock v = - 1) (lawful fw) (goHomeHour fw v)"
    by (rule holds_goHomeHour [OF q v]) (simp add: lawful_def delay_def c_rem_def)
  then have "holds (lawful fw) (lawful fw) (goHomeHour fw v)"
    by (rule holds_weaken) simp_all
  then show "holds (lawful fw) (lawful fw) (andThen (goHomeHour fw v) k)"
    by (rule holds_andThen) (rule k)
qed

lemma lawful_setup_RTC_PCF8574:
  "holds (lawful FlipClock_RTC_PCF8574) (lawful FlipClock_RTC_PCF8574)
     (setup_RTC_PCF8574 found lost built (power_on s t))"
  unfolding setup_RTC_PCF8574_def
  by (auto intro!: lawful_home_hour_minute holds_syncClockToRTC settledD(1) settled_lawful
        simp: lawful_def power_on_def servo_write_def rtc_adjust_def)

lemma lawful_setup_RTC_GPIO:
  "holds (lawful FlipClock_RTC_GPIO) (lawful FlipClock_RTC_GPIO)
     (setup_RTC_GPIO found lost built (power_on s t))"
  unfolding setup_RTC_GPIO_def Let_def
  by (auto intro!: lawful_home_minute_hour holds_syncClockToRTC settledD(1) settled_lawful
        simp: lawful_def power_on_def servo_write_def rtc_adjust_def)

lemma lawful_setup_WiFi:
  "holds (lawful FlipClock_WiFi) (lawful FlipClock_WiFi)
     (setup_WiFi connected updated (power_on s t))"
  unfolding setup_WiFi_def Let_def
  by (auto intro!: lawful_home_minute_hour
        simp: lawful_def power_on_def servo_write_def)

lemma lawful_loops:
  "lawful FlipClock_RTC_PCF8574 w \<Longrightarrow>
     holds (lawful FlipClock_RTC_PCF8574) (lawful FlipClock_RTC_PCF8574) (loop_RTC_PCF8574 b w)"
  "lawful FlipClock_RTC_GPIO w \<Longrightarrow>
     holds (lawful FlipClock_RTC_GPIO) (lawful FlipClock_RTC_GPIO) (loop_RTC_GPIO b w)"
  "lawful FlipClock_WiFi w \<Longrightarrow>
     holds (lawful FlipClock_WiFi) (lawful FlipClock_WiFi) (loop_WiFi w)"
  by (simp_all add: holds_loop_RTC_PCF8574 holds_loop_RTC_GPIO holds_loop_WiFi
        settled_lawful settledD(1) lawful_rtc_adjust)

lemma sketch_offsets:
  "0 \<le> SERVO_MOVE_OFFSET_MINUTE FlipClock_RTC_PCF8574"
  "SERVO_MOVE_OFFSET_HOUR FlipClock_RTC_PCF8574 \<le> 0"
  "0 \<le> SERVO_MOVE_OFFSET_MINUTE FlipClock_RTC_GPIO"
  "SERVO_MOVE_OFFSET_HOUR FlipClock_RTC_GPIO \<le> 0"
  "0 \<le> SERVO_MOVE_OFFSET_MINUTE FlipClock_WiFi"
  "SERVO_MOVE_OFFSET_HOUR FlipClock_WiFi \<le> 0"
  by (simp_all add: FlipClock_RTC_PCF8574_def FlipClock_RTC_GPIO_def FlipClock_WiFi_def)


section \<open>What the dial functions leave alone\<close>

lemma steady_untouched: "steady fw (untouched w)"
  unfolding steady_def quiet_def untouched_def
  by (simp add: delay_def servo_write_def adjusts_append)

lemma quiet_untouched_minute:
  "quiet fw (\<lambda>v. untouched w v \<and> currentMinuteOnClock v = c)"
  using steadyD(1) [OF steady_untouched, of fw w] quiet_minute [of fw c]
  unfolding quiet_def by simp

lemma quiet_untouched_hour:
  "quiet fw (\<lambda>v. untouched w v \<and> currentHourOnClock v = c)"
  using steadyD(1) [OF steady_untouched, of fw w] quiet_hour [of fw c]
  unfolding quiet_def by simp

lemma untouched_refl: "untouched w w"
  by (simp add: untouched_def)

lemma untouched_moveHourToNext:
  "untouched w (final (moveHourToNext fw w)) \<and>
   currentMinuteOnClock (final (moveHourToNext fw w)) = currentMinuteOnClock w"
proof -
  let ?P = "\<lambda>v. untouched w v \<and> currentMinuteOnClock v = currentMinuteOnClock w"
  have "holds ?P ?P (moveHourToNext fw w)"
    by (rule holds_moveHourToNext [OF quiet_untouched_minute])
       (simp_all add: untouched_def adjusts_append)
  then show ?thesis by (simp add: holds_final)
qed

lemma untouched_moveMinuteStep:
  "untouched w (final (moveMinuteStep fw w)) \<and>
   currentHourOnClock (final (moveMinuteStep fw w)) = currentHourOnClock w"
proof -
  let ?P = "\<lambda>v. untouched w v \<and> currentHourOnClock v = currentHourOnClock w"
  have "holds ?P ?P (moveMinuteStep fw w)"
    by (rule holds_moveMinuteStep [OF quiet_untouched_hour])
       (simp_all add: untouched_def adjusts_append)
  then show ?thesis by (simp add: holds_final)
qed

lemma untouched_syncClockToRTC: "untouched w (final (syncClockToRTC fw w))"
  using holds_syncClockToRTC [where fw = fw and w = w and P = "untouched w", OF steady_untouched untouched_refl]
  by (simp add: holds_final)













lemma andThen_Returned: "andThen r (\<lambda>w. Returned w) = r"
  by (cases r) simp_all

lemma settled_unwritten:
  "settled fw (\<lambda>v. timeSource v = t \<and> adjusts (events v) = as)"
  unfolding settled_def steady_def quiet_def
  by (simp add: delay_def servo_write_def adjusts_append)

lemma unwritten_without_save:
  assumes "hb = handleButtons_PCF8574 \<or> hb = handleButtons_GPIO"
    and "BTN_SAVE b = HIGH"
  shows "timeSource (final (hb b w)) = timeSource w \<and>
         adjusts (events (final (hb b w))) = adjusts (events w)"
proof -
  let ?P = "\<lambda>v. timeSource v = timeSource w \<and> adjusts (events v) = adjusts (events w)"
  have "holds ?P ?P (hb b w)"
    using assms(1)
  proof
    assume "hb = handleButtons_PCF8574"
    then show ?thesis
      using holds_handleButtons_PCF8574 [where P = ?P and w = w and b = b, OF settled_unwritten]
        assms(2)
      by simp
  next
    assume "hb = handleButtons_GPIO"
    then show ?thesis
      using holds_handleButtons_GPIO [where P = ?P and w = w and b = b, OF settled_unwritten]
        assms(2)
      by simp
  qed
  then show ?thesis by (simp add: holds_final)
qed

lemma presses_samples: "presses 2 = [LOW, HIGH, LOW, HIGH]"
  by (simp add: presses_def cycles_def numeral_2_eq_2)

text \<open>
  The cool-down in the sketch of version 2.0 (PCF8574): within \<^verbatim>\<open>debounceDelay\<close> of the
  recorded press time the handler does nothing, and otherwise it takes at most one of its
  five actions, recording \<^verbatim>\<open>millis()\<close> as the press time when it takes one.
\<close>

lemma debounce_else_if_chain:
  "(millis w - lastButtonPressTime w < debounceDelay \<longrightarrow>
      handleButtons_PCF8574 b w = Returned w) \<and>
   (handleButtons_PCF8574 b w = Returned w \<or>
    handleButtons_PCF8574 b w =
      Returned (w\<lparr>lastButtonPressTime := millis w, currentMode := SETTING_MODE,
                  settingHour := hour (timeSource w),
                  settingMinute := minute (timeSource w)\<rparr>) \<or>
    handleButtons_PCF8574 b w =
      moveHourToNext FlipClock_RTC_PCF8574
        (w\<lparr>lastButtonPressTime := millis w, settingHour := c_rem (settingHour w + 1) 24\<rparr>) \<or>
    handleButtons_PCF8574 b w =
      moveMinuteStep FlipClock_RTC_PCF8574
        (w\<lparr>lastButtonPressTime := millis w,
           settingMinute := c_rem (settingMinute w + 1) 60\<rparr>) \<or>
    handleButtons_PCF8574 b w =
      Returned ((rtc_adjust
          \<lparr>year = year (timeSource w), month = month (timeSource w),
           day = day (timeSource w), hour = settingHour w, minute = settingMinute w,
           second = 0\<rparr>
          (w\<lparr>lastButtonPressTime := millis w\<rparr>))\<lparr>currentMode := NORMAL_MODE\<rparr>) \<or>
    handleButtons_PCF8574 b w =
      syncClockToRTC FlipClock_RTC_PCF8574
        (w\<lparr>lastButtonPressTime := millis w, currentMode := NORMAL_MODE\<rparr>)) \<and>
   (handleButtons_PCF8574 b w = Returned w \<or>
    lastButtonPressTime (final (handleButtons_PCF8574 b w)) = millis w)"
proof (intro conjI impI)
  show "handleButtons_PCF8574 b w = Returned w \<or>
    lastButtonPressTime (final (handleButtons_PCF8574 b w)) = millis w"
    using untouched_moveHourToNext [of "w\<lparr>lastButtonPressTime := millis w,
        settingHour := c_rem (settingHour w + 1) 24\<rparr>" FlipClock_RTC_PCF8574]
      untouched_moveMinuteStep [of "w\<lparr>lastButtonPressTime := millis w,
        settingMinute := c_rem (settingMinute w + 1) 60\<rparr>" FlipClock_RTC_PCF8574]
      untouched_syncClockToRTC [of "w\<lparr>lastButtonPressTime := millis w,
        currentMode := NORMAL_MODE\<rparr>" FlipClock_RTC_PCF8574]
    by (simp add: handleButtons_PCF8574_def untouched_def rtc_adjust_def Let_def)
qed (simp_all add: handleButtons_PCF8574_def Let_def)

text \<open>One pass of the WiFi loop moves each dial that differs from the reading once.\<close>

lemma loop_WiFi_counters:
  assumes "loop_WiFi w = Returned w'"
  shows "currentMinuteOnClock w' =
           (if currentMinuteOnClock w = minute (timeSource w) then currentMinuteOnClock w
            else c_rem (currentMinuteOnClock w + 1) 60) \<and>
         currentHourOnClock w' =
           (if currentHourOnClock w = hour (timeSource w) then currentHourOnClock w
            else c_rem (currentHourOnClock w + 1) 24) \<and>
         timeSource w' = timeSource w"
proof -
  let ?m = "if currentMinuteOnClock w \<noteq> minute (timeSource w)
            then moveMinuteStep FlipClock_WiFi w else Returned w"
  from assms obtain v where v: "?m = Returned v"
    unfolding loop_WiFi_def Let_def by (cases ?m) auto
  let ?h = "if currentHourOnClock v \<noteq> hour (timeSource w)
            then moveHourToNext FlipClock_WiFi v else Returned v"
  from assms v obtain u where u: "?h = Returned u" and w': "w' = delay 1000 u"
    unfolding loop_WiFi_def Let_def by (cases ?h) auto
  have mv: "currentMinuteOnClock v =
           (if currentMinuteOnClock w = minute (timeSource w) then currentMinuteOnClock w
            else c_rem (currentMinuteOnClock w + 1) 60)"
    using v moveMinuteStep_counter [of FlipClock_WiFi w v] by (auto split: if_splits)
  have hv: "currentHourOnClock v = currentHourOnClock w \<and> timeSource v = timeSource w"
    using v untouched_moveMinuteStep [of w FlipClock_WiFi]
    by (auto split: if_splits simp: untouched_def)
  have hu: "currentHourOnClock u =
           (if currentHourOnClock v = hour (timeSource w) then currentHourOnClock v
            else c_rem (currentHourOnClock v + 1) 24)"
    using u moveHourToNext_counter [of FlipClock_WiFi v u] by (auto split: if_splits)
  have mu: "currentMinuteOnClock u = currentMinuteOnClock v \<and> timeSource u = timeSource v"
    using u untouched_moveHourToNext [of v FlipClock_WiFi]
    by (auto split: if_splits simp: untouched_def)
  from mv hv hu mu w' show ?thesis by (simp add: delay_def)
qed

lemma advances_pred:
  assumes "- 1 \<le> c" and "c \<le> m - 1" and "0 \<le> a" and "a \<le> m - 1"
  shows "advances m (if c = a then c else if c = m - 1 then 0 else c + 1) a =
         advances m c a - 1"
  using assms by (auto simp: advances_def)

lemma iterate_loop_WiFi:
  assumes "iterate k loop_WiFi w = Returned w'" and "in_range w"
    and "0 \<le> hour (timeSource w)" and "hour (timeSource w) \<le> 23"
    and "0 \<le> minute (timeSource w)" and "minute (timeSource w) \<le> 59"
  shows "in_range w' \<and> timeSource w' = timeSource w \<and>
     advances 60 (currentMinuteOnClock w') (minute (timeSource w)) =
       advances 60 (currentMinuteOnClock w) (minute (timeSource w)) - k \<and>
     advances 24 (currentHourOnClock w') (hour (timeSource w)) =
       advances 24 (currentHourOnClock w) (hour (timeSource w)) - k"
  using assms
proof (induction k arbitrary: w)
  case 0
  then show ?case by simp
next
  case (Suc k)
  from Suc.prems(1) obtain v where v: "loop_WiFi w = Returned v"
    and w': "iterate k loop_WiFi v = Returned w'"
    by (cases "loop_WiFi w") auto
  note c = loop_WiFi_counters [OF v]
  from Suc.prems(2) have r: "- 1 \<le> currentMinuteOnClock w" "currentMinuteOnClock w \<le> 59"
    "- 1 \<le> currentHourOnClock w" "currentHourOnClock w \<le> 23"
    by (simp_all add: in_range_def)
  have cm: "currentMinuteOnClock v =
      (if currentMinuteOnClock w = minute (timeSource w) then currentMinuteOnClock w
       else if currentMinuteOnClock w = 60 - 1 then 0 else currentMinuteOnClock w + 1)"
    using c r by (simp add: c_rem_succ_60)
  have ch: "currentHourOnClock v =
      (if currentHourOnClock w = hour (timeSource w) then currentHourOnClock w
       else if currentHourOnClock w = 24 - 1 then 0 else currentHourOnClock w + 1)"
    using c r by (simp add: c_rem_succ_24)
  have am: "advances 60 (currentMinuteOnClock v) (minute (timeSource w)) =
      advances 60 (currentMinuteOnClock w) (minute (timeSource w)) - 1"
    unfolding cm using r Suc.prems by (intro advances_pred) simp_all
  have ah: "advances 24 (currentHourOnClock v) (hour (timeSource w)) =
      advances 24 (currentHourOnClock w) (hour (timeSource w)) - 1"
    unfolding ch using r Suc.prems by (intro advances_pred) simp_all
  have rv: "in_range v"
    using cm ch r Suc.prems by (auto simp: in_range_def split: if_splits)
  from c have tv: "timeSource v = timeSource w" by simp
  from Suc.IH [OF w' rv] Suc.prems tv am ah show ?case by simp
qed

text \<open>
  When the step switches deliver the press-release cycles, the calls return:
  \<^verbatim>\<open>syncClockToRTC\<close> on the cycles of the whole forward distance, one pass of the WiFi
  \<^verbatim>\<open>loop\<close> on one cycle of the minute switch and two of the hour switch (none for a dial
  that shows the reading), and any number of passes on the cycles of the whole distance.
\<close>

lemma cycles_append: "cycles (ps @ qs) = cycles ps @ cycles qs"
  by (simp add: cycles_def)

lemma andThen_iterate_0: "andThen r (iterate 0 f) = r"
  by (cases r) simp_all

lemma iterate_one: "iterate (Suc 0) f w = f w"
  by (simp add: andThen_iterate_0)

lemma syncClockToRTC_cycles:
  assumes "in_range w"
    and "0 \<le> hour (timeSource w)" and "hour (timeSource w) \<le> 23"
    and "0 \<le> minute (timeSource w)" and "minute (timeSource w) \<le> 59"
    and "switches w STEP_HOUR = cycles ps @ r1"
    and "length ps = 2 * advances 24 (currentHourOnClock w) (hour (timeSource w))"
    and "switches w STEP_MINUTE = cycles qs @ r2"
    and "length qs = advances 60 (currentMinuteOnClock w) (minute (timeSource w))"
  shows "\<exists>w'. syncClockToRTC fw w = Returned w' \<and>
              switches w' = (switches w)(STEP_HOUR := r1, STEP_MINUTE := r2)"
proof -
  let ?h = "advances 24 (currentHourOnClock w) (hour (timeSource w))"
  let ?m = "advances 60 (currentMinuteOnClock w) (minute (timeSource w))"
  have u: "syncClockToRTC fw w =
      andThen (iterate ?h (moveHourToNext fw) w) (iterate ?m (moveMinuteStep fw))"
    using assms(1-5) by (rule syncClockToRTC_unroll)
  from iterate_moveHourToNext_cycles [OF assms(6,7), of fw]
  obtain v where v: "iterate ?h (moveHourToNext fw) w = Returned v"
    and sv: "switches v = (switches w)(STEP_HOUR := r1)"
    by blast
  from sv assms(8) have "switches v STEP_MINUTE = cycles qs @ r2" by simp
  from iterate_moveMinuteStep_cycles [OF this, of fw] assms(9)
  obtain w' where w': "iterate ?m (moveMinuteStep fw) v = Returned w'"
    and sw: "switches w' = (switches v)(STEP_MINUTE := r2)"
    by auto
  from v w' sv sw show ?thesis unfolding u by simp
qed

lemma loop_WiFi_cycles:
  assumes "switches w STEP_MINUTE = cycles qs @ r1"
    and "length qs = (if currentMinuteOnClock w = minute (timeSource w) then 0 else 1)"
    and "switches w STEP_HOUR = cycles ps @ r2"
    and "length ps = (if currentHourOnClock w = hour (timeSource w) then 0 else 2)"
  shows "\<exists>w'. loop_WiFi w = Returned w' \<and>
              switches w' = (switches w)(STEP_MINUTE := r1, STEP_HOUR := r2)"
proof -
  from iterate_moveMinuteStep_cycles [OF assms(1), of FlipClock_WiFi]
  obtain v where v: "iterate (length qs) (moveMinuteStep FlipClock_WiFi) w = Returned v"
    and sv: "switches v = (switches w)(STEP_MINUTE := r1)"
    by blast
  have m: "(if currentMinuteOnClock w \<noteq> minute (timeSource w)
            then moveMinuteStep FlipClock_WiFi w else Returned w) = Returned v"
    using v assms(2) by (simp add: andThen_iterate_0 split: if_splits)
  have hv: "currentHourOnClock v = currentHourOnClock w"
    using m untouched_moveMinuteStep [of w FlipClock_WiFi] by (auto split: if_splits)
  let ?n = "if currentHourOnClock w = hour (timeSource w) then 0 else Suc 0"
  from sv assms(3) have "switches v STEP_HOUR = cycles ps @ r2" by simp
  moreover from assms(4) have "length ps = 2 * ?n" by simp
  ultimately obtain u where u: "iterate ?n (moveHourToNext FlipClock_WiFi) v = Returned u"
    and su: "switches u = (switches v)(STEP_HOUR := r2)"
    using iterate_moveHourToNext_cycles [of v ps r2 ?n FlipClock_WiFi] by blast
  have h: "(if currentHourOnClock v \<noteq> hour (timeSource w)
            then moveHourToNext FlipClock_WiFi v else Returned v) = Returned u"
    using u hv by (simp add: andThen_iterate_0 split: if_splits)
  have "loop_WiFi w = Returned (delay 1000 u)"
    unfolding loop_WiFi_def Let_def by (simp only: m andThen.simps h)
  moreover have "switches (delay 1000 u) = (switches w)(STEP_MINUTE := r1, STEP_HOUR := r2)"
    using su sv by (simp add: delay_def)
  ultimately show ?thesis by blast
qed

lemma iterate_loop_WiFi_returns:
  assumes "in_range w"
    and "0 \<le> hour (timeSource w)" and "hour (timeSource w) \<le> 23"
    and "0 \<le> minute (timeSource w)" and "minute (timeSource w) \<le> 59"
    and "switches w STEP_MINUTE = cycles qs @ r1"
    and "length qs = advances 60 (currentMinuteOnClock w) (minute (timeSource w))"
    and "switches w STEP_HOUR = cycles ps @ r2"
    and "length ps = 2 * advances 24 (currentHourOnClock w) (hour (timeSource w))"
  shows "\<exists>w'. iterate k loop_WiFi w = Returned w'"
  using assms
proof (induction k arbitrary: w qs ps)
  case 0
  then show ?case by simp
next
  case (Suc k)
  let ?am = "advances 60 (currentMinuteOnClock w) (minute (timeSource w))"
  let ?ah = "advances 24 (currentHourOnClock w) (hour (timeSource w))"
  let ?nm = "if currentMinuteOnClock w = minute (timeSource w) then 0 else 1 :: nat"
  let ?nh = "if currentHourOnClock w = hour (timeSource w) then 0 else 2 :: nat"
  from Suc.prems(1) have r: "- 1 \<le> currentMinuteOnClock w" "currentMinuteOnClock w \<le> 59"
    "- 1 \<le> currentHourOnClock w" "currentHourOnClock w \<le> 23"
    by (simp_all add: in_range_def)
  have zm: "?am = 0 \<longleftrightarrow> currentMinuteOnClock w = minute (timeSource w)"
    using r Suc.prems by (intro advances_zero) simp_all
  have zh: "?ah = 0 \<longleftrightarrow> currentHourOnClock w = hour (timeSource w)"
    using r Suc.prems by (intro advances_zero) simp_all
  have lm: "length (take ?nm qs) = ?nm" and dm: "length (drop ?nm qs) = ?am - 1"
    using zm Suc.prems(7) by (auto simp: min_def)
  have lh: "length (take ?nh ps) = ?nh" and dh: "length (drop ?nh ps) = 2 * (?ah - 1)"
    using zh Suc.prems(9) by (auto simp: min_def)
  have sm: "switches w STEP_MINUTE = cycles (take ?nm qs) @ (cycles (drop ?nm qs) @ r1)"
    using Suc.prems(6) cycles_append [of "take ?nm qs" "drop ?nm qs"] by simp
  have sh: "switches w STEP_HOUR = cycles (take ?nh ps) @ (cycles (drop ?nh ps) @ r2)"
    using Suc.prems(8) cycles_append [of "take ?nh ps" "drop ?nh ps"] by simp
  from loop_WiFi_cycles [OF sm lm sh lh]
  obtain v where v: "loop_WiFi w = Returned v"
    and sv: "switches v = (switches w)(STEP_MINUTE := cycles (drop ?nm qs) @ r1,
                                       STEP_HOUR := cycles (drop ?nh ps) @ r2)"
    by blast
  from v have "iterate 1 loop_WiFi w = Returned v" by (simp add: iterate_one)
  from iterate_loop_WiFi [OF this Suc.prems(1-5)]
  have rv: "in_range v" and tv: "timeSource v = timeSource w"
    and am: "advances 60 (currentMinuteOnClock v) (minute (timeSource w)) = ?am - 1"
    and ah: "advances 24 (currentHourOnClock v) (hour (timeSource w)) = ?ah - 1"
    by simp_all
  have "\<exists>w'. iterate k loop_WiFi v = Returned w'"
  proof (rule Suc.IH [OF rv])
    show "0 \<le> hour (timeSource v)" "hour (timeSource v) \<le> 23"
      "0 \<le> minute (timeSource v)" "minute (timeSource v) \<le> 59"
      using Suc.prems(2-5) tv by simp_all
    show "switches v STEP_MINUTE = cycles (drop ?nm qs) @ r1" using sv by simp
    show "switches v STEP_HOUR = cycles (drop ?nh ps) @ r2" using sv by simp
    show "length (drop ?nm qs) =
        advances 60 (currentMinuteOnClock v) (minute (timeSource v))"
      using dm am tv by simp
    show "length (drop ?nh ps) =
        2 * advances 24 (currentHourOnClock v) (hour (timeSource v))"
      using dh ah tv by simp
  qed
  with v show ?case by simp
qed

section \<open>The properties of the specification\<close>

text \<open>
  C1, as amended.  For counters in their ranges and a reading in \<open>0..23\<close>, \<open>0..59\<close>,
  \<^verbatim>\<open>syncClockToRTC\<close> of the RTC sketches is \<open>h\<close> calls of \<^verbatim>\<open>moveHourToNext\<close> followed by
  \<open>m\<close> calls of \<^verbatim>\<open>moveMinuteStep\<close>, where \<open>h \<le> 24\<close> and \<open>m \<le> 60\<close> are the forward
  distances from the counters to the reading.  It returns when the step switches deliver
  the \<open>2 * h\<close> and \<open>m\<close> press-release cycles, and when it returns the counters equal the
  reading.  The WiFi sketch reconciles in its \<^verbatim>\<open>loop\<close>, one advance for each pass: a pass
  returns when the switches deliver one cycle for the minute dial and two for the hour
  dial (none for a dial that shows the reading), and it has advanced each dial that
  differed from the reading once.  With the reading unchanged and the \<open>m\<close> and \<open>2 * h\<close>
  cycles delivered, \<open>k\<close> passes return for every \<open>k\<close>; after them the counters equal the
  reading when \<open>k\<close> is at least \<open>h\<close> and \<open>m\<close>, and they do not when \<open>k\<close> is less than
  \<open>h\<close> or \<open>m\<close>.
\<close>

theorem reconciliation:
  assumes "in_range w"
    and "0 \<le> hour (timeSource w)" and "hour (timeSource w) \<le> 23"
    and "0 \<le> minute (timeSource w)" and "minute (timeSource w) \<le> 59"
  shows
   "syncClockToRTC fw w =
      andThen (iterate (advances 24 (currentHourOnClock w) (hour (timeSource w)))
                 (moveHourToNext fw) w)
        (iterate (advances 60 (currentMinuteOnClock w) (minute (timeSource w)))
                 (moveMinuteStep fw)) \<and>
    advances 24 (currentHourOnClock w) (hour (timeSource w)) \<le> 24 \<and>
    advances 60 (currentMinuteOnClock w) (minute (timeSource w)) \<le> 60 \<and>
    (\<forall>w'. syncClockToRTC fw w = Returned w' \<longrightarrow>
       currentHourOnClock w' = hour (timeSource w) \<and>
       currentMinuteOnClock w' = minute (timeSource w)) \<and>
    (\<forall>ps r1 qs r2.
       switches w STEP_HOUR = cycles ps @ r1 \<and>
       length ps = 2 * advances 24 (currentHourOnClock w) (hour (timeSource w)) \<and>
       switches w STEP_MINUTE = cycles qs @ r2 \<and>
       length qs = advances 60 (currentMinuteOnClock w) (minute (timeSource w)) \<longrightarrow>
       (\<exists>w'. syncClockToRTC fw w = Returned w')) \<and>
    (\<forall>w'. loop_WiFi w = Returned w' \<longrightarrow>
       currentMinuteOnClock w' =
         (if currentMinuteOnClock w = minute (timeSource w) then currentMinuteOnClock w
          else c_rem (currentMinuteOnClock w + 1) 60) \<and>
       currentHourOnClock w' =
         (if currentHourOnClock w = hour (timeSource w) then currentHourOnClock w
          else c_rem (currentHourOnClock w + 1) 24)) \<and>
    (\<forall>k w'. iterate k loop_WiFi w = Returned w' \<and>
       advances 24 (currentHourOnClock w) (hour (timeSource w)) \<le> k \<and>
       advances 60 (currentMinuteOnClock w) (minute (timeSource w)) \<le> k \<longrightarrow>
       currentHourOnClock w' = hour (timeSource w) \<and>
       currentMinuteOnClock w' = minute (timeSource w)) \<and>
    (\<forall>qs r1 ps r2.
       switches w STEP_MINUTE = cycles qs @ r1 \<and>
       length qs = (if currentMinuteOnClock w = minute (timeSource w) then 0 else 1) \<and>
       switches w STEP_HOUR = cycles ps @ r2 \<and>
       length ps = (if currentHourOnClock w = hour (timeSource w) then 0 else 2) \<longrightarrow>
       (\<exists>w'. loop_WiFi w = Returned w' \<and>
             switches w' = (switches w)(STEP_MINUTE := r1, STEP_HOUR := r2))) \<and>
    (\<forall>k qs r1 ps r2.
       switches w STEP_MINUTE = cycles qs @ r1 \<and>
       length qs = advances 60 (currentMinuteOnClock w) (minute (timeSource w)) \<and>
       switches w STEP_HOUR = cycles ps @ r2 \<and>
       length ps = 2 * advances 24 (currentHourOnClock w) (hour (timeSource w)) \<longrightarrow>
       (\<exists>w'. iterate k loop_WiFi w = Returned w' \<and>
          (advances 24 (currentHourOnClock w) (hour (timeSource w)) \<le> k \<and>
           advances 60 (currentMinuteOnClock w) (minute (timeSource w)) \<le> k \<longrightarrow>
           currentHourOnClock w' = hour (timeSource w) \<and>
           currentMinuteOnClock w' = minute (timeSource w)))) \<and>
    (\<forall>k w'. iterate k loop_WiFi w = Returned w' \<and>
       (k < advances 24 (currentHourOnClock w) (hour (timeSource w)) \<or>
        k < advances 60 (currentMinuteOnClock w) (minute (timeSource w))) \<longrightarrow>
       \<not> (currentHourOnClock w' = hour (timeSource w) \<and>
          currentMinuteOnClock w' = minute (timeSource w)))"
proof (intro conjI allI impI)
  let ?h = "advances 24 (currentHourOnClock w) (hour (timeSource w))"
  let ?m = "advances 60 (currentMinuteOnClock w) (minute (timeSource w))"
  from assms have r: "- 1 \<le> currentMinuteOnClock w" "currentMinuteOnClock w \<le> 59"
    "- 1 \<le> currentHourOnClock w" "currentHourOnClock w \<le> 23"
    by (simp_all add: in_range_def)
  show u: "syncClockToRTC fw w =
      andThen (iterate ?h (moveHourToNext fw) w) (iterate ?m (moveMinuteStep fw))"
    using assms by (rule syncClockToRTC_unroll)
  show "?h \<le> 24" using advances_le [of "currentHourOnClock w" 24] r assms by simp
  show "?m \<le> 60" using advances_le [of "currentMinuteOnClock w" 60] r assms by simp
  {
    fix w' assume "syncClockToRTC fw w = Returned w'"
    then show "currentHourOnClock w' = hour (timeSource w)"
      and "currentMinuteOnClock w' = minute (timeSource w)"
      by (simp_all add: syncClockToRTC_post)
  }
  {
    fix ps r1 qs r2
    assume a: "switches w STEP_HOUR = cycles ps @ r1 \<and> length ps = 2 * ?h \<and>
       switches w STEP_MINUTE = cycles qs @ r2 \<and> length qs = ?m"
    with syncClockToRTC_cycles [OF assms, of ps r1 qs r2 fw]
    show "\<exists>w'. syncClockToRTC fw w = Returned w'" by blast
  }
  {
    fix w' assume "loop_WiFi w = Returned w'"
    from loop_WiFi_counters [OF this]
    show "currentMinuteOnClock w' =
         (if currentMinuteOnClock w = minute (timeSource w) then currentMinuteOnClock w
          else c_rem (currentMinuteOnClock w + 1) 60)"
      and "currentHourOnClock w' =
         (if currentHourOnClock w = hour (timeSource w) then currentHourOnClock w
          else c_rem (currentHourOnClock w + 1) 24)"
      by simp_all
  }
  have reach: "currentHourOnClock w' = hour (timeSource w) \<and>
      currentMinuteOnClock w' = minute (timeSource w)"
    if k: "iterate k loop_WiFi w = Returned w'" "?h \<le> k" "?m \<le> k" for k w'
  proof -
    from iterate_loop_WiFi [OF k(1) assms] k(2,3)
    have w': "in_range w'"
      "advances 60 (currentMinuteOnClock w') (minute (timeSource w)) = 0"
      "advances 24 (currentHourOnClock w') (hour (timeSource w)) = 0"
      by simp_all
    from w'(1) have "- 1 \<le> currentMinuteOnClock w'" "currentMinuteOnClock w' \<le> 59"
      "- 1 \<le> currentHourOnClock w'" "currentHourOnClock w' \<le> 23"
      by (simp_all add: in_range_def)
    with w'(2,3) assms
      advances_zero [of "currentMinuteOnClock w'" 60 "minute (timeSource w)"]
      advances_zero [of "currentHourOnClock w'" 24 "hour (timeSource w)"]
    show ?thesis by simp
  qed
  {
    fix k w' assume k: "iterate k loop_WiFi w = Returned w' \<and> ?h \<le> k \<and> ?m \<le> k"
    with reach [of k w']
    show "currentHourOnClock w' = hour (timeSource w)"
      and "currentMinuteOnClock w' = minute (timeSource w)"
      by simp_all
  }
  {
    fix qs r1 ps r2
    assume "switches w STEP_MINUTE = cycles qs @ r1 \<and>
       length qs = (if currentMinuteOnClock w = minute (timeSource w) then 0 else 1) \<and>
       switches w STEP_HOUR = cycles ps @ r2 \<and>
       length ps = (if currentHourOnClock w = hour (timeSource w) then 0 else 2)"
    with loop_WiFi_cycles [of w qs r1 ps r2]
    show "\<exists>w'. loop_WiFi w = Returned w' \<and>
             switches w' = (switches w)(STEP_MINUTE := r1, STEP_HOUR := r2)"
      by blast
  }
  {
    fix k qs r1 ps r2
    assume "switches w STEP_MINUTE = cycles qs @ r1 \<and> length qs = ?m \<and>
       switches w STEP_HOUR = cycles ps @ r2 \<and> length ps = 2 * ?h"
    with iterate_loop_WiFi_returns [OF assms, of qs r1 ps r2 k]
    obtain w' where w': "iterate k loop_WiFi w = Returned w'" by blast
    with reach [of k w']
    show "\<exists>w'. iterate k loop_WiFi w = Returned w' \<and>
          (?h \<le> k \<and> ?m \<le> k \<longrightarrow>
           currentHourOnClock w' = hour (timeSource w) \<and>
           currentMinuteOnClock w' = minute (timeSource w))"
      by blast
  }
  {
    fix k w'
    assume k: "iterate k loop_WiFi w = Returned w' \<and> (k < ?h \<or> k < ?m)"
    then have i: "iterate k loop_WiFi w = Returned w'" by simp
    from iterate_loop_WiFi [OF i assms]
    have w': "advances 60 (currentMinuteOnClock w') (minute (timeSource w)) = ?m - k"
      "advances 24 (currentHourOnClock w') (hour (timeSource w)) = ?h - k"
      by simp_all
    show "\<not> (currentHourOnClock w' = hour (timeSource w) \<and>
          currentMinuteOnClock w' = minute (timeSource w))"
    proof
      assume "currentHourOnClock w' = hour (timeSource w) \<and>
          currentMinuteOnClock w' = minute (timeSource w)"
      with w' have "?m - k = 0" "?h - k = 0" by (simp_all add: advances_def)
      with k show False by auto
    qed
  }
qed

theorem reconciliation_witness:
  "in_range (bench 58 22 (clock_time 1 2) (\<lambda>p. presses 6)) \<and>
   hour (timeSource (bench 58 22 (clock_time 1 2) (\<lambda>p. presses 6))) = 1 \<and>
   minute (timeSource (bench 58 22 (clock_time 1 2) (\<lambda>p. presses 6))) = 2 \<and>
   advances 24 22 1 = 3 \<and> advances 60 58 2 = 4 \<and>
   (\<exists>w'. syncClockToRTC FlipClock_RTC_PCF8574 (bench 58 22 (clock_time 1 2) (\<lambda>p. presses 6))
            = Returned w' \<and>
          currentHourOnClock w' = 1 \<and> currentMinuteOnClock w' = 2) \<and>
   (\<exists>w'. iterate 4 loop_WiFi (bench 58 22 (clock_time 1 2) (\<lambda>p. presses 6)) = Returned w' \<and>
          currentHourOnClock w' = 1 \<and> currentMinuteOnClock w' = 2)"
proof -
  let ?w = "bench 58 22 (clock_time 1 2) (\<lambda>p. presses 6)"
  have r: "in_range ?w" by (simp add: in_range_def bench_def power_on_def)
  have t: "hour (timeSource ?w) = 1" "minute (timeSource ?w) = 2"
    by (simp_all add: bench_def power_on_def clock_time_def)
  have c: "currentHourOnClock ?w = 22" "currentMinuteOnClock ?w = 58"
    by (simp_all add: bench_def power_on_def)
  have a: "advances 24 22 1 = 3" "advances 60 58 2 = 4"
    by (simp_all add: advances_def)
  have s: "switches ?w STEP_HOUR = cycles (replicate 6 (0, 0)) @ [] \<and>
      length (replicate 6 (0, 0) :: (nat \<times> nat) list) =
        2 * advances 24 (currentHourOnClock ?w) (hour (timeSource ?w)) \<and>
      switches ?w STEP_MINUTE = cycles (replicate 4 (0, 0)) @ presses 2 \<and>
      length (replicate 4 (0, 0) :: (nat \<times> nat) list) =
        advances 60 (currentMinuteOnClock ?w) (minute (timeSource ?w))"
    unfolding t c a
    by (simp add: bench_def power_on_def presses_def cycles_def eval_nat_numeral)
  then have s': "switches ?w STEP_MINUTE = cycles (replicate 4 (0, 0)) @ presses 2 \<and>
      length (replicate 4 (0, 0) :: (nat \<times> nat) list) =
        advances 60 (currentMinuteOnClock ?w) (minute (timeSource ?w)) \<and>
      switches ?w STEP_HOUR = cycles (replicate 6 (0, 0)) @ [] \<and>
      length (replicate 6 (0, 0) :: (nat \<times> nat) list) =
        2 * advances 24 (currentHourOnClock ?w) (hour (timeSource ?w))"
    by blast
  have g: "0 \<le> hour (timeSource ?w)" "hour (timeSource ?w) \<le> 23"
    "0 \<le> minute (timeSource ?w)" "minute (timeSource ?w) \<le> 59"
    by (simp_all add: t)
  note th = reconciliation [OF r g, of FlipClock_RTC_PCF8574]
  from th s obtain w' where w': "syncClockToRTC FlipClock_RTC_PCF8574 ?w = Returned w'"
    by blast
  with th have "currentHourOnClock w' = hour (timeSource ?w) \<and>
      currentMinuteOnClock w' = minute (timeSource ?w)"
    by blast
  then have x: "currentHourOnClock w' = 1 \<and> currentMinuteOnClock w' = 2"
    by (simp add: t)
  have k: "advances 24 (currentHourOnClock ?w) (hour (timeSource ?w)) \<le> 4 \<and>
    advances 60 (currentMinuteOnClock ?w) (minute (timeSource ?w)) \<le> 4"
    by (simp add: t c a)
  from th s' have "\<exists>v'. iterate 4 loop_WiFi ?w = Returned v' \<and>
      (advances 24 (currentHourOnClock ?w) (hour (timeSource ?w)) \<le> 4 \<and>
       advances 60 (currentMinuteOnClock ?w) (minute (timeSource ?w)) \<le> 4 \<longrightarrow>
       currentHourOnClock v' = hour (timeSource ?w) \<and>
       currentMinuteOnClock v' = minute (timeSource ?w))"
    by blast
  with k obtain v' where v': "iterate 4 loop_WiFi ?w = Returned v'"
    and "currentHourOnClock v' = hour (timeSource ?w) \<and>
       currentMinuteOnClock v' = minute (timeSource ?w)"
    by blast
  then have y: "currentHourOnClock v' = 1 \<and> currentMinuteOnClock v' = 2"
    by (simp add: t)
  from r t a w' x v' y show ?thesis by blast
qed

theorem reconciliation_counterexample:
  "loop_WiFi (bench 0 0 (clock_time 5 30) (\<lambda>p. presses 2)) =
     Returned ((bench 0 0 (clock_time 5 30) (\<lambda>p. presses 2))
       \<lparr>currentMinuteOnClock := 1, currentHourOnClock := 1, millis := 1100,
        switches := (\<lambda>p. presses 2)(STEP_MINUTE := [LOW, HIGH], STEP_HOUR := []),
        events := [ServoWrite Minute 120, ServoWrite Minute 90, Assign Minute 0 1,
                   ServoWrite Hour 60, ServoWrite Hour 90, ServoWrite Hour 60,
                   ServoWrite Hour 90, Assign Hour 0 1]\<rparr>) \<and>
   minute (timeSource (bench 0 0 (clock_time 5 30) (\<lambda>p. presses 2))) = 30 \<and>
   hour (timeSource (bench 0 0 (clock_time 5 30) (\<lambda>p. presses 2))) = 5 \<and>
   in_range (bench 0 0 (clock_time 5 30) (\<lambda>p. presses 2))"
  by (simp add: loop_WiFi_def bench_def power_on_def clock_time_def presses_samples in_range_def
        moveHourToNext_def performHourSingleStep_def moveMinuteStep_def while_read_def
        servo_write_def delay_def c_rem_def SERVO_STOP_POSITION_def FlipClock_WiFi_def
        fun_eq_iff)

text \<open>
  C2.  After \<open>n\<close> calls of \<^verbatim>\<open>moveMinuteStep\<close> that return, the minute counter is
  \<open>(initial + n) % 60\<close>, and after \<open>n\<close> calls of \<^verbatim>\<open>moveHourToNext\<close> the hour counter is
  \<open>(initial + n) % 24\<close>, for every initial value a counter can have (\<open>-1\<close> and the
  positions of the dial) and every \<open>n\<close>, \<open>0\<close> included.  The remainder is that of the code,
  \<open>c_rem\<close>, which has the sign of the dividend; it agrees with the mathematical \<open>mod\<close>
  whenever \<open>initial + n\<close> is not negative.  The \<open>n\<close> calls return when the step switch
  delivers \<open>n\<close> press-release cycles (\<open>2 * n\<close> for the hour dial).
\<close>

theorem counter_after_advances:
  "(- 1 \<le> currentMinuteOnClock w \<and> currentMinuteOnClock w \<le> 59 \<longrightarrow>
      (\<forall>w'. iterate n (moveMinuteStep fw) w = Returned w' \<longrightarrow>
         currentMinuteOnClock w' = c_rem (currentMinuteOnClock w + int n) 60 \<and>
         (0 \<le> currentMinuteOnClock w + int n \<longrightarrow>
            currentMinuteOnClock w' = (currentMinuteOnClock w + int n) mod 60))) \<and>
   (- 1 \<le> currentHourOnClock w \<and> currentHourOnClock w \<le> 23 \<longrightarrow>
      (\<forall>w'. iterate n (moveHourToNext fw) w = Returned w' \<longrightarrow>
         currentHourOnClock w' = c_rem (currentHourOnClock w + int n) 24 \<and>
         (0 \<le> currentHourOnClock w + int n \<longrightarrow>
            currentHourOnClock w' = (currentHourOnClock w + int n) mod 24))) \<and>
   (\<forall>ps rest. switches w STEP_MINUTE = cycles ps @ rest \<and> length ps = n \<longrightarrow>
      (\<exists>w'. iterate n (moveMinuteStep fw) w = Returned w')) \<and>
   (\<forall>ps rest. switches w STEP_HOUR = cycles ps @ rest \<and> length ps = 2 * n \<longrightarrow>
      (\<exists>w'. iterate n (moveHourToNext fw) w = Returned w'))"
proof (intro conjI allI impI)
  fix w'
  assume "- 1 \<le> currentMinuteOnClock w \<and> currentMinuteOnClock w \<le> 59"
    and "iterate n (moveMinuteStep fw) w = Returned w'"
  then show m: "currentMinuteOnClock w' = c_rem (currentMinuteOnClock w + int n) 60"
    by (intro iterate_minute_counter) simp_all
  assume "0 \<le> currentMinuteOnClock w + int n"
  with m show "currentMinuteOnClock w' = (currentMinuteOnClock w + int n) mod 60"
    by (simp add: c_rem_nonneg)
next
  fix w'
  assume "- 1 \<le> currentHourOnClock w \<and> currentHourOnClock w \<le> 23"
    and "iterate n (moveHourToNext fw) w = Returned w'"
  then show h: "currentHourOnClock w' = c_rem (currentHourOnClock w + int n) 24"
    by (intro iterate_hour_counter) simp_all
  assume "0 \<le> currentHourOnClock w + int n"
  with h show "currentHourOnClock w' = (currentHourOnClock w + int n) mod 24"
    by (simp add: c_rem_nonneg)
next
  fix ps rest assume "switches w STEP_MINUTE = cycles ps @ rest \<and> length ps = n"
  with iterate_moveMinuteStep_cycles [of w ps rest fw]
  show "\<exists>w'. iterate n (moveMinuteStep fw) w = Returned w'" by blast
next
  fix ps rest assume "switches w STEP_HOUR = cycles ps @ rest \<and> length ps = 2 * n"
  with iterate_moveHourToNext_cycles [of w ps rest n fw]
  show "\<exists>w'. iterate n (moveHourToNext fw) w = Returned w'" by blast
qed

theorem counter_after_advances_witness:
  "currentMinuteOnClock (bench 58 (- 1) (clock_time 0 0) (\<lambda>p. presses 6)) = 58 \<and>
   currentHourOnClock (bench 58 (- 1) (clock_time 0 0) (\<lambda>p. presses 6)) = - 1 \<and>
   (\<exists>w'. iterate 3 (moveMinuteStep FlipClock_WiFi)
            (bench 58 (- 1) (clock_time 0 0) (\<lambda>p. presses 6)) = Returned w' \<and>
          currentMinuteOnClock w' = 1) \<and>
   (\<exists>w'. iterate 3 (moveHourToNext FlipClock_WiFi)
            (bench 58 (- 1) (clock_time 0 0) (\<lambda>p. presses 6)) = Returned w' \<and>
          currentHourOnClock w' = 2)"
proof -
  let ?w = "bench 58 (- 1) (clock_time 0 0) (\<lambda>p. presses 6)"
  have c: "currentMinuteOnClock ?w = 58" "currentHourOnClock ?w = - 1"
    by (simp_all add: bench_def power_on_def)
  then have r: "- 1 \<le> currentMinuteOnClock ?w \<and> currentMinuteOnClock ?w \<le> 59"
    "- 1 \<le> currentHourOnClock ?w \<and> currentHourOnClock ?w \<le> 23"
    by simp_all
  have m: "switches ?w STEP_MINUTE = cycles (replicate 3 (0, 0)) @ presses 3 \<and>
           length (replicate 3 (0, 0) :: (nat \<times> nat) list) = 3"
    by (simp add: bench_def power_on_def presses_def cycles_def numeral_3_eq_3 eval_nat_numeral)
  have h: "switches ?w STEP_HOUR = cycles (replicate 6 (0, 0)) @ [] \<and>
           length (replicate 6 (0, 0) :: (nat \<times> nat) list) = 2 * 3"
    by (simp add: bench_def power_on_def presses_def)
  note t = counter_after_advances [of ?w 3 FlipClock_WiFi]
  from t m obtain w1 where w1: "iterate 3 (moveMinuteStep FlipClock_WiFi) ?w = Returned w1"
    by blast
  with t r have "currentMinuteOnClock w1 = c_rem (currentMinuteOnClock ?w + int 3) 60" by blast
  then have c1: "currentMinuteOnClock w1 = 1"
    by (simp add: c c_rem_def)
  from t h obtain w2 where w2: "iterate 3 (moveHourToNext FlipClock_WiFi) ?w = Returned w2"
    by blast
  with t r have "currentHourOnClock w2 = c_rem (currentHourOnClock ?w + int 3) 24" by blast
  then have c2: "currentHourOnClock w2 = 2"
    by (simp add: c c_rem_def)
  from c w1 c1 w2 c2 show ?thesis by blast
qed

text \<open>
  C3.  In every state the three sketches reach, the minute counter is in \<open>{-1, 0..59}\<close>
  and the hour counter in \<open>{-1, 0..23}\<close>; every operation keeps these ranges, whether it
  returns or blocks; and \<open>-1\<close> is seen only before homing: an operation never takes a
  counter from \<open>0..59\<close> (\<open>0..23\<close>) back to \<open>-1\<close>, homing a dial puts its counter there, and
  once \<^verbatim>\<open>setup\<close> has returned both counters are there for good.
\<close>

theorem counters_in_range:
  "(reachable r \<longrightarrow>
      in_range (final r) \<and> (\<forall>v. r = Returned v \<longrightarrow> known Minute v \<and> known Hour v)) \<and>
   (in_range w \<longrightarrow> in_range (final (perform fw op w))) \<and>
   (known d w \<longrightarrow> known d (final (perform fw op w))) \<and>
   (\<forall>w'. goHomeMinute fw w = Returned w' \<longrightarrow> known Minute w') \<and>
   (\<forall>w'. goHomeHour fw w = Returned w' \<longrightarrow> known Hour w')"
proof (intro conjI impI allI)
  assume "reachable r"
  then have h: "holds in_range homed r" by (rule reachable_range)
  then show "in_range (final r)" by (cases r) (simp_all add: homed_in_range)
  fix v assume "r = Returned v"
  with h show "known Minute v" "known Hour v" by (simp_all add: homed_def)
next
  assume "in_range w"
  then have "holds in_range in_range (perform fw op w)"
    by (intro holds_perform settled_in_range)
       (simp_all add: in_range_rtc_adjust in_range_home)
  then show "in_range (final (perform fw op w))" by (simp add: holds_final)
next
  assume "known d w"
  then have "holds (known d) (known d) (perform fw op w)"
    by (intro holds_perform settled_known) (simp_all add: known_rtc_adjust known_home)
  then show "known d (final (perform fw op w))" by (simp add: holds_final)
next
  fix w' assume "goHomeMinute fw w = Returned w'"
  then show "known Minute w'" by (simp add: goHomeMinute_zero)
next
  fix w' assume "goHomeHour fw w = Returned w'"
  then show "known Hour w'" by (simp add: goHomeHour_zero)
qed

theorem counters_in_range_witness:
  "reachable (setup_WiFi True False (power_on (\<lambda>p. [LOW]) (clock_time 9 41))) \<and>
   in_range (final (setup_WiFi True False (power_on (\<lambda>p. [LOW]) (clock_time 9 41)))) \<and>
   in_range (bench 59 (- 1) (clock_time 9 41) (\<lambda>p. presses 1)) \<and>
   in_range (final (perform FlipClock_WiFi Loop_WiFi
      (bench 59 (- 1) (clock_time 9 41) (\<lambda>p. presses 1)))) \<and>
   known Minute (bench 59 (- 1) (clock_time 9 41) (\<lambda>p. presses 1)) \<and>
   known Minute (final (perform FlipClock_WiFi Loop_WiFi
      (bench 59 (- 1) (clock_time 9 41) (\<lambda>p. presses 1))))"
proof -
  let ?r = "setup_WiFi True False (power_on (\<lambda>p. [LOW]) (clock_time 9 41))"
  let ?w = "bench 59 (- 1) (clock_time 9 41) (\<lambda>p. presses 1)"
  have r: "reachable ?r"
    unfolding reachable_def by (intro disjI2 exI) (rule run.boot)
  have w: "in_range ?w" "known Minute ?w"
    by (simp_all add: in_range_def bench_def power_on_def)
  note t = counters_in_range [of ?r ?w FlipClock_WiFi Loop_WiFi Minute]
  from t r have "in_range (final ?r)" by blast
  moreover from t w have "in_range (final (perform FlipClock_WiFi Loop_WiFi ?w))"
    and "known Minute (final (perform FlipClock_WiFi Loop_WiFi ?w))" by blast+
  ultimately show ?thesis using r w by blast
qed



text \<open>
  C5.  \<^verbatim>\<open>goHomeMinute\<close> returns exactly when the home switch of the minute dial comes to
  read LOW.  For each sample HIGH before that it has written the one forward command to
  the minute servo; then it writes the stop pulse and sets the counter to \<open>0\<close>, whatever
  the counter was.  The same holds of \<^verbatim>\<open>goHomeHour\<close>, and after both, in either order,
  both counters are \<open>0\<close>.
\<close>

theorem homing_postcondition:
  "(switches w HOME_MINUTE = replicate k HIGH @ LOW # rest \<longrightarrow>
      goHomeMinute fw w =
        Returned (w\<lparr>currentMinuteOnClock := 0,
                   millis := millis w + of_nat (k * HOME_POLL_DELAY fw) +
                             of_nat (HOME_SETTLE_DELAY fw),
                   switches := (switches w)(HOME_MINUTE := rest),
                   events := events w @
                     replicate k (ServoWrite Minute
                        (SERVO_STOP_POSITION + SERVO_MOVE_OFFSET_MINUTE fw)) @
                     [ServoWrite Minute SERVO_STOP_POSITION,
                      Assign Minute (currentMinuteOnClock w) 0]\<rparr>)) \<and>
   (switches w HOME_HOUR = replicate k HIGH @ LOW # rest \<longrightarrow>
      goHomeHour fw w =
        Returned (w\<lparr>currentHourOnClock := 0,
                   millis := millis w + of_nat (k * HOME_POLL_DELAY fw) +
                             of_nat (HOME_SETTLE_DELAY fw),
                   switches := (switches w)(HOME_HOUR := rest),
                   events := events w @
                     replicate k (ServoWrite Hour
                        (SERVO_STOP_POSITION + SERVO_MOVE_OFFSET_HOUR fw)) @
                     [ServoWrite Hour SERVO_STOP_POSITION,
                      Assign Hour (currentHourOnClock w) 0]\<rparr>)) \<and>
   (goHomeMinute fw w = Returned w' \<longrightarrow>
      currentMinuteOnClock w' = 0 \<and>
      (\<exists>k rest. switches w HOME_MINUTE = replicate k HIGH @ LOW # rest)) \<and>
   (goHomeHour fw w = Returned w' \<longrightarrow>
      currentHourOnClock w' = 0 \<and>
      (\<exists>k rest. switches w HOME_HOUR = replicate k HIGH @ LOW # rest)) \<and>
   (andThen (goHomeMinute fw w) (goHomeHour fw) = Returned w' \<longrightarrow>
      currentMinuteOnClock w' = 0 \<and> currentHourOnClock w' = 0) \<and>
   (andThen (goHomeHour fw w) (goHomeMinute fw) = Returned w' \<longrightarrow>
      currentMinuteOnClock w' = 0 \<and> currentHourOnClock w' = 0)"
proof (intro conjI impI)
  assume "switches w HOME_MINUTE = replicate k HIGH @ LOW # rest"
  then show "goHomeMinute fw w =
        Returned (w\<lparr>currentMinuteOnClock := 0,
                   millis := millis w + of_nat (k * HOME_POLL_DELAY fw) +
                             of_nat (HOME_SETTLE_DELAY fw),
                   switches := (switches w)(HOME_MINUTE := rest),
                   events := events w @
                     replicate k (ServoWrite Minute
                        (SERVO_STOP_POSITION + SERVO_MOVE_OFFSET_MINUTE fw)) @
                     [ServoWrite Minute SERVO_STOP_POSITION,
                      Assign Minute (currentMinuteOnClock w) 0]\<rparr>)"
    by (rule goHomeMinute_pressed)
next
  assume "switches w HOME_HOUR = replicate k HIGH @ LOW # rest"
  then show "goHomeHour fw w =
        Returned (w\<lparr>currentHourOnClock := 0,
                   millis := millis w + of_nat (k * HOME_POLL_DELAY fw) +
                             of_nat (HOME_SETTLE_DELAY fw),
                   switches := (switches w)(HOME_HOUR := rest),
                   events := events w @
                     replicate k (ServoWrite Hour
                        (SERVO_STOP_POSITION + SERVO_MOVE_OFFSET_HOUR fw)) @
                     [ServoWrite Hour SERVO_STOP_POSITION,
                      Assign Hour (currentHourOnClock w) 0]\<rparr>)"
    by (rule goHomeHour_pressed)
next
  assume "andThen (goHomeMinute fw w) (goHomeHour fw) = Returned w'"
  then obtain v where v: "goHomeMinute fw w = Returned v" and w': "goHomeHour fw v = Returned w'"
    by (cases "goHomeMinute fw w") auto
  have "holds (\<lambda>u. currentMinuteOnClock u = 0) (\<lambda>u. currentMinuteOnClock u = 0)
          (goHomeHour fw v)"
    by (rule holds_goHomeHour [OF quiet_minute])
       (simp_all add: goHomeMinute_zero [OF v] delay_def)
  with w' show "currentMinuteOnClock w' = 0" by simp
  from w' show "currentHourOnClock w' = 0" by (rule goHomeHour_zero)
next
  assume "andThen (goHomeHour fw w) (goHomeMinute fw) = Returned w'"
  then obtain v where v: "goHomeHour fw w = Returned v" and w': "goHomeMinute fw v = Returned w'"
    by (cases "goHomeHour fw w") auto
  have "holds (\<lambda>u. currentHourOnClock u = 0) (\<lambda>u. currentHourOnClock u = 0)
          (goHomeMinute fw v)"
    by (rule holds_goHomeMinute [OF quiet_hour])
       (simp_all add: goHomeHour_zero [OF v] delay_def)
  with w' show "currentHourOnClock w' = 0" by simp
  from w' show "currentMinuteOnClock w' = 0" by (rule goHomeMinute_zero)
qed (blast dest: goHomeMinute_zero goHomeHour_zero goHomeMinute_shape goHomeHour_shape)+

theorem homing_postcondition_witness:
  "switches (power_on ((\<lambda>p. [])(HOME_MINUTE := [HIGH, HIGH, LOW, LOW],
       HOME_HOUR := [HIGH, HIGH, LOW])) (clock_time 9 41)) HOME_MINUTE =
     replicate 2 HIGH @ LOW # [LOW] \<and>
   goHomeMinute FlipClock_WiFi
     (power_on ((\<lambda>p. [])(HOME_MINUTE := [HIGH, HIGH, LOW, LOW],
        HOME_HOUR := [HIGH, HIGH, LOW])) (clock_time 9 41)) =
     Returned ((power_on ((\<lambda>p. [])(HOME_MINUTE := [LOW], HOME_HOUR := [HIGH, HIGH, LOW]))
                  (clock_time 9 41))
       \<lparr>currentMinuteOnClock := 0, millis := 900,
        events := [ServoWrite Minute 120, ServoWrite Minute 120, ServoWrite Minute 90,
                   Assign Minute (- 1) 0]\<rparr>)"
proof -
  let ?s = "(\<lambda>p. [])(HOME_MINUTE := [HIGH, HIGH, LOW, LOW], HOME_HOUR := [HIGH, HIGH, LOW])"
  let ?w = "power_on ?s (clock_time 9 41)"
  have s: "switches ?w HOME_MINUTE = replicate 2 HIGH @ LOW # [LOW]"
    by (simp add: power_on_def numeral_2_eq_2)
  from homing_postcondition [of ?w 2 "[LOW]" FlipClock_WiFi] s
  have "goHomeMinute FlipClock_WiFi ?w =
        Returned (?w\<lparr>currentMinuteOnClock := 0,
                   millis := millis ?w + of_nat (2 * HOME_POLL_DELAY FlipClock_WiFi) +
                             of_nat (HOME_SETTLE_DELAY FlipClock_WiFi),
                   switches := (switches ?w)(HOME_MINUTE := [LOW]),
                   events := events ?w @
                     replicate 2 (ServoWrite Minute
                        (SERVO_STOP_POSITION + SERVO_MOVE_OFFSET_MINUTE FlipClock_WiFi)) @
                     [ServoWrite Minute SERVO_STOP_POSITION,
                      Assign Minute (currentMinuteOnClock ?w) 0]\<rparr>)"
    by blast
  then show ?thesis
    using s
    by (simp add: power_on_def SERVO_STOP_POSITION_def FlipClock_WiFi_def numeral_2_eq_2
          fun_eq_iff)
qed

text \<open>
  C6, as amended.  In both RTC sketches a call of \<^verbatim>\<open>handleButtons\<close> in which save is not
  pressed leaves the time source as it is and writes nothing to it; so do a call in NORMAL
  mode and one within the cool-down.  In SETTING mode with the cool-down over, the hour
  button (alone) increments \<^verbatim>\<open>settingHour\<close> modulo 24, records the press time and
  advances the hour dial, and leaves the time source, the mode, \<^verbatim>\<open>settingMinute\<close> and the
  minute counter as they are; likewise the minute button.  When neither of the two is
  pressed, the time source is written if and only if save is pressed, and then with the
  scratch hour and minute.  A press of cancel without save leaves the time source
  unchanged.
\<close>

theorem time_source_written_by_save_only:
  assumes "hb = handleButtons_PCF8574 \<or> hb = handleButtons_GPIO"
  shows
   "(BTN_SAVE b = HIGH \<or> currentMode w = NORMAL_MODE \<or>
     millis w - lastButtonPressTime w < debounceDelay \<longrightarrow>
       timeSource (final (hb b w)) = timeSource w \<and>
       adjusts (events (final (hb b w))) = adjusts (events w)) \<and>
    (currentMode w = SETTING_MODE \<and> \<not> millis w - lastButtonPressTime w < debounceDelay \<and>
     BTN_HOUR_INC b = LOW \<and> BTN_MINUTE_INC b = HIGH \<and> BTN_SAVE b = HIGH \<and>
     BTN_MODE_CANCEL b = HIGH \<longrightarrow>
       timeSource (final (hb b w)) = timeSource w \<and>
       adjusts (events (final (hb b w))) = adjusts (events w) \<and>
       currentMode (final (hb b w)) = SETTING_MODE \<and>
       settingHour (final (hb b w)) = c_rem (settingHour w + 1) 24 \<and>
       settingMinute (final (hb b w)) = settingMinute w \<and>
       lastButtonPressTime (final (hb b w)) = millis w \<and>
       currentMinuteOnClock (final (hb b w)) = currentMinuteOnClock w \<and>
       (\<forall>w'. hb b w = Returned w' \<longrightarrow>
          currentHourOnClock w' = c_rem (currentHourOnClock w + 1) 24)) \<and>
    (currentMode w = SETTING_MODE \<and> \<not> millis w - lastButtonPressTime w < debounceDelay \<and>
     BTN_HOUR_INC b = HIGH \<and> BTN_MINUTE_INC b = LOW \<and> BTN_SAVE b = HIGH \<and>
     BTN_MODE_CANCEL b = HIGH \<longrightarrow>
       timeSource (final (hb b w)) = timeSource w \<and>
       adjusts (events (final (hb b w))) = adjusts (events w) \<and>
       currentMode (final (hb b w)) = SETTING_MODE \<and>
       settingHour (final (hb b w)) = settingHour w \<and>
       settingMinute (final (hb b w)) = c_rem (settingMinute w + 1) 60 \<and>
       lastButtonPressTime (final (hb b w)) = millis w \<and>
       currentHourOnClock (final (hb b w)) = currentHourOnClock w \<and>
       (\<forall>w'. hb b w = Returned w' \<longrightarrow>
          currentMinuteOnClock w' = c_rem (currentMinuteOnClock w + 1) 60)) \<and>
    (currentMode w = SETTING_MODE \<and> \<not> millis w - lastButtonPressTime w < debounceDelay \<and>
     BTN_HOUR_INC b = HIGH \<and> BTN_MINUTE_INC b = HIGH \<longrightarrow>
       ((adjusts (events (final (hb b w))) \<noteq> adjusts (events w)) = (BTN_SAVE b = LOW)) \<and>
       (BTN_SAVE b = LOW \<longrightarrow>
          (\<exists>t. adjusts (events (final (hb b w))) = adjusts (events w) @ [t] \<and>
               timeSource (final (hb b w)) = t \<and>
               hour t = settingHour w \<and> minute t = settingMinute w)))"
proof (intro conjI impI)
  assume a: "BTN_SAVE b = HIGH \<or> currentMode w = NORMAL_MODE \<or>
     millis w - lastButtonPressTime w < debounceDelay"
  have "timeSource (final (hb b w)) = timeSource w \<and>
       adjusts (events (final (hb b w))) = adjusts (events w)"
  proof (cases "BTN_SAVE b = HIGH")
    case True
    with assms show ?thesis by (rule unwritten_without_save)
  next
    case False
    with a assms show ?thesis
      by (auto simp: handleButtons_PCF8574_def handleButtons_GPIO_def)
  qed
  then show "timeSource (final (hb b w)) = timeSource w"
    and "adjusts (events (final (hb b w))) = adjusts (events w)" by simp_all
next
  assume c: "currentMode w = SETTING_MODE \<and> \<not> millis w - lastButtonPressTime w < debounceDelay \<and>
     BTN_HOUR_INC b = LOW \<and> BTN_MINUTE_INC b = HIGH \<and> BTN_SAVE b = HIGH \<and>
     BTN_MODE_CANCEL b = HIGH"
  let ?w1 = "w\<lparr>lastButtonPressTime := millis w, settingHour := c_rem (settingHour w + 1) 24\<rparr>"
  define fw where
    "fw = (if hb = handleButtons_PCF8574 then FlipClock_RTC_PCF8574 else FlipClock_RTC_GPIO)"
  have hb: "hb b w = moveHourToNext fw ?w1"
    using assms c
    by (auto simp: fw_def handleButtons_PCF8574_def handleButtons_GPIO_def andThen_Returned)
  from untouched_moveHourToNext [of ?w1 fw]
  show "timeSource (final (hb b w)) = timeSource w"
    and "adjusts (events (final (hb b w))) = adjusts (events w)"
    and "currentMode (final (hb b w)) = SETTING_MODE"
    and "settingHour (final (hb b w)) = c_rem (settingHour w + 1) 24"
    and "settingMinute (final (hb b w)) = settingMinute w"
    and "lastButtonPressTime (final (hb b w)) = millis w"
    and "currentMinuteOnClock (final (hb b w)) = currentMinuteOnClock w"
    using c unfolding hb by (simp_all add: untouched_def)
  show "\<forall>w'. hb b w = Returned w' \<longrightarrow>
          currentHourOnClock w' = c_rem (currentHourOnClock w + 1) 24"
    unfolding hb using moveHourToNext_counter [of fw ?w1] by simp
next
  assume c: "currentMode w = SETTING_MODE \<and> \<not> millis w - lastButtonPressTime w < debounceDelay \<and>
     BTN_HOUR_INC b = HIGH \<and> BTN_MINUTE_INC b = LOW \<and> BTN_SAVE b = HIGH \<and>
     BTN_MODE_CANCEL b = HIGH"
  let ?w1 = "w\<lparr>lastButtonPressTime := millis w,
               settingMinute := c_rem (settingMinute w + 1) 60\<rparr>"
  define fw where
    "fw = (if hb = handleButtons_PCF8574 then FlipClock_RTC_PCF8574 else FlipClock_RTC_GPIO)"
  have hb: "hb b w = moveMinuteStep fw ?w1"
    using assms c
    by (auto simp: fw_def handleButtons_PCF8574_def handleButtons_GPIO_def andThen_Returned)
  from untouched_moveMinuteStep [of ?w1 fw]
  show "timeSource (final (hb b w)) = timeSource w"
    and "adjusts (events (final (hb b w))) = adjusts (events w)"
    and "currentMode (final (hb b w)) = SETTING_MODE"
    and "settingHour (final (hb b w)) = settingHour w"
    and "settingMinute (final (hb b w)) = c_rem (settingMinute w + 1) 60"
    and "lastButtonPressTime (final (hb b w)) = millis w"
    and "currentHourOnClock (final (hb b w)) = currentHourOnClock w"
    using c unfolding hb by (simp_all add: untouched_def)
  show "\<forall>w'. hb b w = Returned w' \<longrightarrow>
          currentMinuteOnClock w' = c_rem (currentMinuteOnClock w + 1) 60"
    unfolding hb using moveMinuteStep_counter [of fw ?w1] by simp
next
  assume c: "currentMode w = SETTING_MODE \<and> \<not> millis w - lastButtonPressTime w < debounceDelay \<and>
     BTN_HOUR_INC b = HIGH \<and> BTN_MINUTE_INC b = HIGH"
  have s: "\<exists>t. adjusts (events (final (hb b w))) = adjusts (events w) @ [t] \<and>
               timeSource (final (hb b w)) = t \<and>
               hour t = settingHour w \<and> minute t = settingMinute w"
    if save: "BTN_SAVE b = LOW"
    using assms
  proof
    assume "hb = handleButtons_PCF8574"
    with c save show ?thesis
      by (simp add: handleButtons_PCF8574_def rtc_adjust_def Let_def adjusts_append)
  next
    assume g: "hb = handleButtons_GPIO"
    let ?t = "\<lparr>year = 2025, month = 6, day = 23, hour = settingHour w,
               minute = settingMinute w, second = 0\<rparr>"
    let ?w2 = "(rtc_adjust ?t (w\<lparr>lastButtonPressTime := millis w\<rparr>))
                 \<lparr>currentMode := NORMAL_MODE\<rparr>"
    let ?w3 = "?w2\<lparr>lastButtonPressTime := millis ?w2, currentMode := NORMAL_MODE\<rparr>"
    have "hb b w = (if BTN_MODE_CANCEL b = LOW then syncClockToRTC FlipClock_RTC_GPIO ?w3
                    else Returned ?w2)"
      using c save by (simp add: g handleButtons_GPIO_def)
    moreover have "untouched ?w3 (final (syncClockToRTC FlipClock_RTC_GPIO ?w3))"
      by (rule untouched_syncClockToRTC)
    ultimately have "adjusts (events (final (hb b w))) = adjusts (events w) @ [?t] \<and>
        timeSource (final (hb b w)) = ?t"
      by (simp add: untouched_def rtc_adjust_def adjusts_append)
    then show ?thesis by simp
  qed
  then show "BTN_SAVE b = LOW \<Longrightarrow>
      \<exists>t. adjusts (events (final (hb b w))) = adjusts (events w) @ [t] \<and>
               timeSource (final (hb b w)) = t \<and>
               hour t = settingHour w \<and> minute t = settingMinute w" .
  show "(adjusts (events (final (hb b w))) \<noteq> adjusts (events w)) = (BTN_SAVE b = LOW)"
  proof (cases "BTN_SAVE b")
    case LOW
    with s show ?thesis by auto
  next
    case HIGH
    with unwritten_without_save [OF assms, of b w] show ?thesis by simp
  qed
qed

theorem time_source_written_by_save_only_witness:
  "currentMode setting_example = SETTING_MODE \<and>
   \<not> millis setting_example - lastButtonPressTime setting_example < debounceDelay \<and>
   timeSource (final (handleButtons_GPIO (no_buttons\<lparr>BTN_MODE_CANCEL := LOW\<rparr>)
      setting_example)) = clock_time 10 5 \<and>
   adjusts (events (final (handleButtons_GPIO (no_buttons\<lparr>BTN_MODE_CANCEL := LOW\<rparr>)
      setting_example))) = [] \<and>
   settingHour (final (handleButtons_PCF8574 (no_buttons\<lparr>BTN_HOUR_INC := LOW\<rparr>)
      setting_example)) = 12 \<and>
   timeSource (final (handleButtons_PCF8574 (no_buttons\<lparr>BTN_HOUR_INC := LOW\<rparr>)
      setting_example)) = clock_time 10 5 \<and>
   settingMinute (final (handleButtons_GPIO (no_buttons\<lparr>BTN_MINUTE_INC := LOW\<rparr>)
      setting_example)) = 8 \<and>
   (\<exists>t. adjusts (events (final (handleButtons_PCF8574 (no_buttons\<lparr>BTN_SAVE := LOW\<rparr>)
            setting_example))) = [t] \<and> hour t = 11 \<and> minute t = 7)"
proof -
  let ?cancel = "no_buttons\<lparr>BTN_MODE_CANCEL := LOW\<rparr>" and ?save = "no_buttons\<lparr>BTN_SAVE := LOW\<rparr>"
  let ?hour = "no_buttons\<lparr>BTN_HOUR_INC := LOW\<rparr>" and ?minute = "no_buttons\<lparr>BTN_MINUTE_INC := LOW\<rparr>"
  note pcf = disjI1 [of "handleButtons_PCF8574 = handleButtons_PCF8574"
      "handleButtons_PCF8574 = handleButtons_GPIO", OF refl]
  note gpio = disjI2 [of "handleButtons_GPIO = handleButtons_GPIO"
      "handleButtons_GPIO = handleButtons_PCF8574", OF refl]
  have m: "currentMode setting_example = SETTING_MODE"
    by (simp add: setting_example_def)
  have c: "\<not> millis setting_example - lastButtonPressTime setting_example < debounceDelay"
    by (simp add: setting_example_def bench_def power_on_def debounceDelay_def)
  have v: "timeSource setting_example = clock_time 10 5" "events setting_example = []"
    "settingHour setting_example = 11" "settingMinute setting_example = 7"
    by (simp_all add: setting_example_def bench_def power_on_def)
  have b1: "BTN_SAVE ?cancel = HIGH" by (simp add: no_buttons_def)
  have b2: "BTN_HOUR_INC ?hour = LOW \<and> BTN_MINUTE_INC ?hour = HIGH \<and> BTN_SAVE ?hour = HIGH \<and>
     BTN_MODE_CANCEL ?hour = HIGH" by (simp add: no_buttons_def)
  have b3: "BTN_HOUR_INC ?minute = HIGH \<and> BTN_MINUTE_INC ?minute = LOW \<and>
     BTN_SAVE ?minute = HIGH \<and> BTN_MODE_CANCEL ?minute = HIGH" by (simp add: no_buttons_def)
  have b4: "BTN_HOUR_INC ?save = HIGH \<and> BTN_MINUTE_INC ?save = HIGH \<and> BTN_SAVE ?save = LOW"
    by (simp add: no_buttons_def)
  from time_source_written_by_save_only [OF disjI2 [OF refl], of ?cancel setting_example] b1
  have "timeSource (final (handleButtons_GPIO ?cancel setting_example)) =
          timeSource setting_example \<and>
        adjusts (events (final (handleButtons_GPIO ?cancel setting_example))) =
          adjusts (events setting_example)"
    by blast
  then have r1: "timeSource (final (handleButtons_GPIO ?cancel setting_example)) = clock_time 10 5"
    "adjusts (events (final (handleButtons_GPIO ?cancel setting_example))) = []"
    by (simp_all add: v)
  from time_source_written_by_save_only [OF disjI1 [OF refl], of ?hour setting_example] m c b2
  have "settingHour (final (handleButtons_PCF8574 ?hour setting_example)) =
          c_rem (settingHour setting_example + 1) 24 \<and>
        timeSource (final (handleButtons_PCF8574 ?hour setting_example)) =
          timeSource setting_example"
    by blast
  then have r2: "settingHour (final (handleButtons_PCF8574 ?hour setting_example)) = 12"
    "timeSource (final (handleButtons_PCF8574 ?hour setting_example)) = clock_time 10 5"
    by (simp_all add: v c_rem_def)
  from time_source_written_by_save_only [OF disjI2 [OF refl], of ?minute setting_example] m c b3
  have "settingMinute (final (handleButtons_GPIO ?minute setting_example)) =
          c_rem (settingMinute setting_example + 1) 60"
    by blast
  then have r3: "settingMinute (final (handleButtons_GPIO ?minute setting_example)) = 8"
    by (simp add: v c_rem_def)
  from time_source_written_by_save_only [OF disjI1 [OF refl], of ?save setting_example] m c b4
  have "\<exists>t. adjusts (events (final (handleButtons_PCF8574 ?save setting_example))) =
            adjusts (events setting_example) @ [t] \<and>
          timeSource (final (handleButtons_PCF8574 ?save setting_example)) = t \<and>
          hour t = settingHour setting_example \<and> minute t = settingMinute setting_example"
    by blast
  then have r4: "\<exists>t. adjusts (events (final (handleButtons_PCF8574 ?save setting_example))) = [t] \<and>
      hour t = 11 \<and> minute t = 7"
    by (auto simp: v)
  from m c r1 r2 r3 r4 show ?thesis by blast
qed

theorem time_source_written_by_save_only_counterexample:
  "currentMode setting_example = SETTING_MODE \<and>
   BTN_SAVE (no_buttons\<lparr>BTN_HOUR_INC := LOW, BTN_SAVE := LOW\<rparr>) = LOW \<and>
   handleButtons_PCF8574 (no_buttons\<lparr>BTN_HOUR_INC := LOW, BTN_SAVE := LOW\<rparr>)
     setting_example =
   Returned (setting_example
     \<lparr>settingHour := 12, currentHourOnClock := 11,
      lastButtonPressTime := 1000, millis := 1100,
      switches := (\<lambda>p. presses 2)(STEP_HOUR := []),
      events := [ServoWrite Hour 75, ServoWrite Hour 90, ServoWrite Hour 75,
                 ServoWrite Hour 90, Assign Hour 10 11]\<rparr>) \<and>
   timeSource setting_example = clock_time 10 5 \<and>
   millis (setting_example\<lparr>lastButtonPressTime := 900\<rparr>) -
     lastButtonPressTime (setting_example\<lparr>lastButtonPressTime := 900\<rparr>) = 100 \<and>
   handleButtons_GPIO (no_buttons\<lparr>BTN_SAVE := LOW\<rparr>)
     (setting_example\<lparr>lastButtonPressTime := 900\<rparr>) =
   Returned (setting_example\<lparr>lastButtonPressTime := 900\<rparr>)"
  by (simp add: handleButtons_PCF8574_def handleButtons_GPIO_def setting_example_def bench_def
        power_on_def no_buttons_def debounceDelay_def presses_samples
        moveHourToNext_def performHourSingleStep_def while_read_def
        servo_write_def delay_def c_rem_def SERVO_STOP_POSITION_def FlipClock_RTC_PCF8574_def
        fun_eq_iff)

text \<open>
  C7.  The earlier RTC sketch does not keep the cool-down inside one call: its four
  \<^verbatim>\<open>if\<close>s are independent.  With the hour and the minute button both LOW, one call of
  \<^verbatim>\<open>handleButtons\<close> advances both scratch values and both dials, and records the second
  press 100 ms after the first.
\<close>

theorem two_actions_in_one_call:
  "handleButtons_GPIO (no_buttons\<lparr>BTN_HOUR_INC := LOW, BTN_MINUTE_INC := LOW\<rparr>)
     setting_example =
   Returned (setting_example
     \<lparr>settingHour := 12, settingMinute := 8,
      currentHourOnClock := 11, currentMinuteOnClock := 6,
      lastButtonPressTime := 1100, millis := 1100,
      switches := (\<lambda>p. presses 2)(STEP_HOUR := [], STEP_MINUTE := [LOW, HIGH]),
      events := [ServoWrite Hour 85, ServoWrite Hour 90, ServoWrite Hour 85,
                 ServoWrite Hour 90, Assign Hour 10 11,
                 ServoWrite Minute 95, ServoWrite Minute 90, Assign Minute 5 6]\<rparr>)"
  by (simp add: handleButtons_GPIO_def setting_example_def bench_def power_on_def
        no_buttons_def debounceDelay_def presses_samples
        moveHourToNext_def performHourSingleStep_def moveMinuteStep_def while_read_def
        servo_write_def delay_def c_rem_def SERVO_STOP_POSITION_def FlipClock_RTC_GPIO_def
        fun_eq_iff)




text \<open>
  C9.  In every state a sketch reaches, blocked states included, every command written to
  a servo so far is the stop pulse or the stop pulse plus the one offset of that dial
  (never a value on the other side of the stop pulse), and every assignment to a position
  counter so far has replaced a value \<open>c\<close> by \<open>(c + 1) % range\<close>; this includes the
  assignments of homing, which replace \<open>-1\<close> by \<open>0\<close>.
\<close>

theorem only_forward_single_steps:
  "(run (setup_RTC_PCF8574 found lost built) loop_RTC_PCF8574 r \<longrightarrow>
      lawful FlipClock_RTC_PCF8574 (final r)) \<and>
   (run (setup_RTC_GPIO found lost built) loop_RTC_GPIO r \<longrightarrow>
      lawful FlipClock_RTC_GPIO (final r)) \<and>
   (run (setup_WiFi connected updated) (\<lambda>b. loop_WiFi) r \<longrightarrow>
      lawful FlipClock_WiFi (final r)) \<and>
   (reachable r \<longrightarrow> list_all forward (events (final r)))"
proof -
  have a: "lawful FlipClock_RTC_PCF8574 (final r)"
    if "run (setup_RTC_PCF8574 found lost built) loop_RTC_PCF8574 r" for found lost built
  proof -
    from that have "holds (lawful FlipClock_RTC_PCF8574) (lawful FlipClock_RTC_PCF8574) r"
      by (rule run_holds) (simp_all add: lawful_setup_RTC_PCF8574 lawful_loops lawful_env)
    then show ?thesis by (simp add: holds_final)
  qed
  have b: "lawful FlipClock_RTC_GPIO (final r)"
    if "run (setup_RTC_GPIO found lost built) loop_RTC_GPIO r" for found lost built
  proof -
    from that have "holds (lawful FlipClock_RTC_GPIO) (lawful FlipClock_RTC_GPIO) r"
      by (rule run_holds) (simp_all add: lawful_setup_RTC_GPIO lawful_loops lawful_env)
    then show ?thesis by (simp add: holds_final)
  qed
  have c: "lawful FlipClock_WiFi (final r)"
    if "run (setup_WiFi connected updated) (\<lambda>b. loop_WiFi) r" for connected updated
  proof -
    from that have "holds (lawful FlipClock_WiFi) (lawful FlipClock_WiFi) r"
      by (rule run_holds) (simp_all add: lawful_setup_WiFi lawful_loops lawful_env)
    then show ?thesis by (simp add: holds_final)
  qed
  have "list_all forward (events (final r))" if "reachable r"
    using that unfolding reachable_def
    by (auto dest!: a b c intro: lawful_forward sketch_offsets)
  with a b c show ?thesis by blast
qed

theorem only_forward_single_steps_witness:
  "run (setup_RTC_PCF8574 True False (clock_time 0 0)) loop_RTC_PCF8574
     (setup_RTC_PCF8574 True False (clock_time 0 0) (power_on morning (clock_time 0 2))) \<and>
   lawful FlipClock_RTC_PCF8574
     (final (setup_RTC_PCF8574 True False (clock_time 0 0)
        (power_on morning (clock_time 0 2)))) \<and>
   list_all forward (events
     (final (setup_RTC_PCF8574 True False (clock_time 0 0)
        (power_on morning (clock_time 0 2))))) \<and>
   events (final (setup_RTC_PCF8574 True False (clock_time 0 0)
        (power_on morning (clock_time 0 2)))) =
     [ServoWrite Minute 90, ServoWrite Hour 90,
      ServoWrite Hour 90, Assign Hour (- 1) 0,
      ServoWrite Minute 90, Assign Minute (- 1) 0,
      ServoWrite Minute 105, ServoWrite Minute 90, Assign Minute 0 1,
      ServoWrite Minute 105, ServoWrite Minute 90, Assign Minute 1 2]"
proof -
  let ?r = "setup_RTC_PCF8574 True False (clock_time 0 0) (power_on morning (clock_time 0 2))"
  have r: "run (setup_RTC_PCF8574 True False (clock_time 0 0)) loop_RTC_PCF8574 ?r"
    by (rule run.boot)
  then have "reachable ?r" unfolding reachable_def by blast
  with r only_forward_single_steps [of True False "clock_time 0 0" ?r]
  have l: "lawful FlipClock_RTC_PCF8574 (final ?r)" "list_all forward (events (final ?r))"
    by blast+
  have "events (final ?r) =
     [ServoWrite Minute 90, ServoWrite Hour 90,
      ServoWrite Hour 90, Assign Hour (- 1) 0,
      ServoWrite Minute 90, Assign Minute (- 1) 0,
      ServoWrite Minute 105, ServoWrite Minute 90, Assign Minute 0 1,
      ServoWrite Minute 105, ServoWrite Minute 90, Assign Minute 1 2]"
    by (simp add: setup_RTC_PCF8574_def power_on_def morning_def presses_def cycles_def
          clock_time_def goHomeHour_def goHomeMinute_def while_read_def servo_write_def
          delay_def syncClockToRTC_def sync_hour.simps sync_minute.simps moveMinuteStep_def
          c_rem_def SERVO_STOP_POSITION_def FlipClock_RTC_PCF8574_def numeral_2_eq_2)
  with r l show ?thesis by blast
qed

text \<open>
  C10.  A single advance of an unhomed dial (counter \<open>-1\<close>) that returns leaves the
  counter at \<open>0\<close>, the value homing leaves; it returns on one press-release cycle of the
  step switch (two for the hour dial) and takes no sample of the home switch.
\<close>

theorem unhomed_advance_gives_zero:
  "(currentMinuteOnClock w = - 1 \<longrightarrow>
      (\<forall>w'. moveMinuteStep fw w = Returned w' \<longrightarrow> currentMinuteOnClock w' = 0) \<and>
      (\<forall>i j rest. switches w STEP_MINUTE = cycle (i, j) @ rest \<longrightarrow>
         (\<exists>w'. moveMinuteStep fw w = Returned w' \<and> currentMinuteOnClock w' = 0 \<and>
               switches w' HOME_MINUTE = switches w HOME_MINUTE))) \<and>
   (currentHourOnClock w = - 1 \<longrightarrow>
      (\<forall>w'. moveHourToNext fw w = Returned w' \<longrightarrow> currentHourOnClock w' = 0) \<and>
      (\<forall>i j i' j' rest. switches w STEP_HOUR = cycle (i, j) @ cycle (i', j') @ rest \<longrightarrow>
         (\<exists>w'. moveHourToNext fw w = Returned w' \<and> currentHourOnClock w' = 0 \<and>
               switches w' HOME_HOUR = switches w HOME_HOUR))) \<and>
   (\<forall>u u'. goHomeMinute fw u = Returned u' \<longrightarrow> currentMinuteOnClock u' = 0) \<and>
   (\<forall>u u'. goHomeHour fw u = Returned u' \<longrightarrow> currentHourOnClock u' = 0)"
proof (intro conjI impI allI)
  fix w' assume "currentMinuteOnClock w = - 1" "moveMinuteStep fw w = Returned w'"
  then show "currentMinuteOnClock w' = 0"
    using moveMinuteStep_counter [of fw w w'] by (simp add: c_rem_def)
next
  fix i j rest
  assume "currentMinuteOnClock w = - 1" "switches w STEP_MINUTE = cycle (i, j) @ rest"
  then show "\<exists>w'. moveMinuteStep fw w = Returned w' \<and> currentMinuteOnClock w' = 0 \<and>
               switches w' HOME_MINUTE = switches w HOME_MINUTE"
    using moveMinuteStep_cycle [of w i j rest fw] by (simp add: c_rem_def)
next
  fix w' assume "currentHourOnClock w = - 1" "moveHourToNext fw w = Returned w'"
  then show "currentHourOnClock w' = 0"
    using moveHourToNext_counter [of fw w w'] by (simp add: c_rem_def)
next
  fix i j i' j' rest
  assume "currentHourOnClock w = - 1"
    "switches w STEP_HOUR = cycle (i, j) @ cycle (i', j') @ rest"
  then show "\<exists>w'. moveHourToNext fw w = Returned w' \<and> currentHourOnClock w' = 0 \<and>
               switches w' HOME_HOUR = switches w HOME_HOUR"
    using moveHourToNext_cycles [of w i j i' j' rest fw] by (simp add: c_rem_def)
qed (auto dest: goHomeMinute_zero goHomeHour_zero)

theorem unhomed_advance_gives_zero_witness:
  "currentMinuteOnClock (power_on (\<lambda>p. presses 2) (clock_time 7 15)) = - 1 \<and>
   currentHourOnClock (power_on (\<lambda>p. presses 2) (clock_time 7 15)) = - 1 \<and>
   (\<exists>w'. moveMinuteStep FlipClock_RTC_PCF8574 (power_on (\<lambda>p. presses 2) (clock_time 7 15))
            = Returned w' \<and> currentMinuteOnClock w' = 0 \<and>
          switches w' HOME_MINUTE = presses 2) \<and>
   (\<exists>w'. moveHourToNext FlipClock_RTC_PCF8574 (power_on (\<lambda>p. presses 2) (clock_time 7 15))
            = Returned w' \<and> currentHourOnClock w' = 0 \<and>
          switches w' HOME_HOUR = presses 2)"
proof -
  let ?w = "power_on (\<lambda>p. presses 2) (clock_time 7 15)"
  have c: "currentMinuteOnClock ?w = - 1" "currentHourOnClock ?w = - 1"
    by (simp_all add: power_on_def)
  have m: "switches ?w STEP_MINUTE = cycle (0, 0) @ presses 1"
    by (simp add: power_on_def presses_def cycles_def numeral_2_eq_2)
  have h: "switches ?w STEP_HOUR = cycle (0, 0) @ cycle (0, 0) @ []"
    by (simp add: power_on_def presses_def cycles_def numeral_2_eq_2)
  have s: "switches ?w HOME_MINUTE = presses 2" "switches ?w HOME_HOUR = presses 2"
    by (simp_all add: power_on_def)
  note t = unhomed_advance_gives_zero [of ?w FlipClock_RTC_PCF8574]
  from t c(1) m s(1) have
    "\<exists>w'. moveMinuteStep FlipClock_RTC_PCF8574 ?w = Returned w' \<and>
          currentMinuteOnClock w' = 0 \<and> switches w' HOME_MINUTE = presses 2"
    by metis
  moreover from t c(2) h s(2) have
    "\<exists>w'. moveHourToNext FlipClock_RTC_PCF8574 ?w = Returned w' \<and>
          currentHourOnClock w' = 0 \<and> switches w' HOME_HOUR = presses 2"
    by metis
  ultimately show ?thesis using c by blast
qed

end
